theory Spec2Isabelle
  imports Complex_Main "HOL-Library.Log_Nat" "HOL-Library.Sublist"
begin

section \<open>The batch conversion worker of m4a2wav\<close>

text \<open>
  The repository holds two variants of one program, \<^verbatim>\<open>m4a2wav.py\<close> and \<^verbatim>\<open>mawa.py\<close>.
  Both define the same \<^verbatim>\<open>ConversionThread\<close>: a worker that walks over a list of input
  files, converts each with the external library \<^verbatim>\<open>pydub\<close> and reports through three
  Qt signals. \<^verbatim>\<open>MainWindow\<close> starts workers and keeps the dictionary
  \<^verbatim>\<open>converted_files\<close>. The window modelled below is the one of \<^verbatim>\<open>mawa.py\<close>.

  Strings are lists of characters, Python's unbounded integers are \<^typ>\<open>int\<close>, the
  dictionary is a map, an exception is a value, and everything a function changes is
  returned as the new state.
\<close>

subsection \<open>Paths: the three functions of \<^verbatim>\<open>os.path\<close> that \<^verbatim>\<open>run\<close> calls\<close>

text \<open>
  These are the POSIX versions (\<^verbatim>\<open>posixpath\<close>, separator \<^verbatim>\<open>/\<close>, extension separator
  \<^verbatim>\<open>.\<close>, no alternative separator). \<^verbatim>\<open>str.rfind\<close> gives the highest index of
  a character, or \<open>-1\<close>.
\<close>

type_synonym path = string

primrec rfind :: "char \<Rightarrow> string \<Rightarrow> int" where
  "rfind c [] = - 1"
| "rfind c (x # xs) =
     (let r = rfind c xs in
      if 0 \<le> r then r + 1 else if x = c then 0 else - 1)"

text \<open>\<^verbatim>\<open>basename(p)\<close>: \<^verbatim>\<open>i = p.rfind('/') + 1; return p[i:]\<close>.\<close>

definition basename :: "path \<Rightarrow> path" where
  "basename p = (let i = rfind CHR ''/'' p + 1 in drop (nat i) p)"

text \<open>
  \<^verbatim>\<open>genericpath._splitext\<close> skips leading dots of the file name with a loop:
  \<^verbatim>\<open>
  while filenameIndex < dotIndex:
      if p[filenameIndex:filenameIndex+1] != extsep:
          return p[:dotIndex], p[dotIndex:]
      filenameIndex += 1
  return p, p[:0]
  \<close>
  \<open>leading_dots_end\<close> is that loop; it answers whether the loop returns from its
  body (a character other than a dot stands before the last dot).
\<close>

function leading_dots_end :: "string \<Rightarrow> nat \<Rightarrow> nat \<Rightarrow> bool" where
  "leading_dots_end p filenameIndex dotIndex =
     (if filenameIndex < dotIndex then
        (if p ! filenameIndex \<noteq> CHR ''.'' then True
         else leading_dots_end p (filenameIndex + 1) dotIndex)
      else False)"
  by pat_completeness auto
termination
  by (relation "measure (\<lambda>(p, filenameIndex, dotIndex). dotIndex - filenameIndex)") auto

declare leading_dots_end.simps [simp del]

definition splitext :: "path \<Rightarrow> path \<times> string" where
  "splitext p =
     (let sepIndex = rfind CHR ''/'' p;
          dotIndex = rfind CHR ''.'' p in
      if sepIndex < dotIndex \<and> leading_dots_end p (nat (sepIndex + 1)) (nat dotIndex)
      then (take (nat dotIndex) p, drop (nat dotIndex) p)
      else (p, []))"

text \<open>
  \<^verbatim>\<open>join(a, b)\<close> with one component: \<^verbatim>\<open>b\<close> replaces the path when it is absolute,
  is appended directly when the path is empty or ends with the separator, and is
  appended after a separator otherwise.
\<close>

definition path_join :: "path \<Rightarrow> path \<Rightarrow> path" where
  "path_join a b =
     (if take 1 b = ''/'' then b
      else if a = [] \<or> last a = CHR ''/'' then a @ b
      else a @ ''/'' @ b)"

text \<open>
  The first statement of the loop body of \<^verbatim>\<open>run\<close>:
  \<^verbatim>\<open>os.path.join(self.output_dir, os.path.splitext(os.path.basename(input_file))[0] + ".wav")\<close>.
\<close>

definition output_file_of :: "path \<Rightarrow> path \<Rightarrow> path" where
  "output_file_of output_dir input_file =
     path_join output_dir (fst (splitext (basename input_file)) @ ''.wav'')"

subsection \<open>The destination path in the words of the specification\<close>

text \<open>
  The specification describes the destination path as the destination directory joined
  with the base name of the source, its extension replaced by \<^verbatim>\<open>.wav\<close>. The three
  definitions below say that with list functions and no index arithmetic: the base name
  is what follows the last separator; the extension starts at the last dot of a name and
  exists only when something other than dots stands before that dot.
\<close>

definition spec_base_name :: "path \<Rightarrow> string" where
  "spec_base_name sourcePath = rev (takeWhile (\<lambda>c. c \<noteq> CHR ''/'') (rev sourcePath))"

definition spec_without_extension :: "string \<Rightarrow> string" where
  "spec_without_extension name =
     (let ext = rev (takeWhile (\<lambda>c. c \<noteq> CHR ''.'') (rev name));
          stem = take (length name - length ext - 1) name in
      if CHR ''.'' \<in> set name \<and> list_ex (\<lambda>c. c \<noteq> CHR ''.'') stem then stem else name)"

definition spec_destinationPath :: "path \<Rightarrow> path \<Rightarrow> path" where
  "spec_destinationPath destinationDir sourcePath =
     (if destinationDir = [] \<or> last destinationDir = CHR ''/'' then destinationDir
      else destinationDir @ ''/'')
     @ spec_without_extension (spec_base_name sourcePath) @ ''.wav''"

subsection \<open>The progress value \<^verbatim>\<open>int((i + 1) / total_files * 100)\<close>\<close>

text \<open>
  The division of two Python integers and the product with \<open>100\<close> are operations on
  IEEE 754 binary64 numbers, each rounded to the nearest representable number, ties to
  the even mantissa; \<^verbatim>\<open>int\<close> then drops the fraction. The numbers are modelled as the
  rationals they denote. \<open>expo x\<close> is the binary exponent of a positive \<open>x\<close>
  (\<open>2\<^sup>e \<le> x < 2\<^sup>e\<^sup>+\<^sup>1\<close>), \<open>rn\<close> rounds to 53 significant bits. The exponent range of
  binary64 is not modelled: the quotients and products here lie between
  \<open>1 / total_files\<close> and \<open>100\<close>, far inside it for every list a machine can hold.
\<close>

definition round_half_even :: "rat \<Rightarrow> int" where
  "round_half_even x =
     (let f = \<lfloor>x\<rfloor>; r = x - of_int f in
      if r < 1 / 2 then f
      else if 1 / 2 < r then f + 1
      else if even f then f else f + 1)"

definition expo :: "rat \<Rightarrow> int" where
  "expo x =
     (let (p, q) = quotient_of x; d = bitlen p - bitlen q in
      if 2 powi d \<le> x then d else d - 1)"

definition rn :: "rat \<Rightarrow> rat" where
  "rn x =
     (if x = 0 then 0
      else let a = \<bar>x\<bar>; e = expo a in
           sgn x * of_int (round_half_even (a * 2 powi (52 - e))) * 2 powi (e - 52))"

definition trunc :: "rat \<Rightarrow> int" where
  "trunc x = (if 0 \<le> x then \<lfloor>x\<rfloor> else \<lceil>x\<rceil>)"

text \<open>\<open>percent k n\<close> is \<^verbatim>\<open>int(k / n * 100)\<close> for \<^verbatim>\<open>k = i + 1\<close>, \<^verbatim>\<open>n = total_files\<close>.\<close>

definition percent :: "nat \<Rightarrow> nat \<Rightarrow> int" where
  "percent k n = trunc (rn (rn (of_nat k / of_nat n) * 100))"

subsection \<open>The transcoding library\<close>

text \<open>
  \<^verbatim>\<open>AudioSegment.from_file(input_file, format="m4a")\<close> and
  \<^verbatim>\<open>audio.export(output_file, format="wav")\<close> belong to \<^verbatim>\<open>pydub\<close>, not to this
  repository, so the worker takes them as a parameter. \<open>'w\<close> is the state of the
  world outside the program (the disk), \<open>'a\<close> the decoded audio. Either call may
  raise; \<^verbatim>\<open>export\<close> may have changed the world when it does.
\<close>

datatype exn = MissingSource | MalformedInput | UnsupportedCodec | DiskFull | PermissionDenied

record ('w, 'a) transcoder =
  from_file :: "'w \<Rightarrow> path \<Rightarrow> exn + 'a"
  export :: "'w \<Rightarrow> 'a \<Rightarrow> path \<Rightarrow> exn option \<times> 'w"

text \<open>
  The specification speaks of one collaborator, \<^verbatim>\<open>transcode(sourcePath, destinationPath)\<close>,
  that succeeds or fails. With this library it is the two calls one after the other: it
  fails when either call raises. \<open>transcode_all\<close> is the world after the collaborator
  has converted a list of files in turn, when none of them fails.
\<close>

definition transcode ::
  "('w, 'a) transcoder \<Rightarrow> 'w \<Rightarrow> path \<Rightarrow> path \<Rightarrow> exn option \<times> 'w"
where
  "transcode lib w sourcePath destinationPath =
     (case from_file lib w sourcePath of
        Inl e \<Rightarrow> (Some e, w)
      | Inr audio \<Rightarrow> export lib w audio destinationPath)"

fun transcode_all :: "('w, 'a) transcoder \<Rightarrow> path \<Rightarrow> 'w \<Rightarrow> path list \<Rightarrow> 'w option" where
  "transcode_all lib dir w [] = Some w"
| "transcode_all lib dir w (sourcePath # rest) =
     (case transcode lib w sourcePath (output_file_of dir sourcePath) of
        (Some e, w') \<Rightarrow> None
      | (None, w') \<Rightarrow> transcode_all lib dir w' rest)"

subsection \<open>\<^verbatim>\<open>ConversionThread\<close>\<close>

text \<open>The three signals of the class, with the arguments they are emitted with.\<close>

datatype signal = Progress int | File_converted path path | Finished

text \<open>The two attributes \<^verbatim>\<open>__init__\<close> stores.\<close>

record conversion_thread =
  input_files :: "path list"
  output_dir :: path

text \<open>
  What a call of \<^verbatim>\<open>run\<close> can read and change: the thread object, the world, and the
  signals emitted so far, oldest first.
\<close>

record 'w run_state =
  self :: conversion_thread
  world :: 'w
  emitted :: "signal list"

text \<open>
  One pass through the body of the \<^verbatim>\<open>for\<close> loop. The first component of the result
  is the exception that left the body, if any.
\<close>

definition loop_body ::
  "('w, 'a) transcoder \<Rightarrow> nat \<Rightarrow> nat \<Rightarrow> path \<Rightarrow> 'w run_state \<Rightarrow> exn option \<times> 'w run_state"
where
  "loop_body lib total_files i input_file s =
     (let output_file = output_file_of (output_dir (self s)) input_file in
      case from_file lib (world s) input_file of
        Inl e \<Rightarrow> (Some e, s)
      | Inr audio \<Rightarrow>
          (case export lib (world s) audio output_file of
             (Some e, w) \<Rightarrow> (Some e, s\<lparr>world := w\<rparr>)
           | (None, w) \<Rightarrow>
               (None, s\<lparr>world := w,
                        emitted := emitted s @
                          [Progress (percent (i + 1) total_files),
                           File_converted input_file output_file]\<rparr>)))"

text \<open>
  \<^verbatim>\<open>for i, input_file in enumerate(self.input_files)\<close>: the files still to visit and
  the index of the first of them. An exception ends the loop.
\<close>

fun for_loop ::
  "('w, 'a) transcoder \<Rightarrow> nat \<Rightarrow> nat \<Rightarrow> path list \<Rightarrow> 'w run_state \<Rightarrow> exn option \<times> 'w run_state"
where
  "for_loop lib total_files i [] s = (None, s)"
| "for_loop lib total_files i (input_file # rest) s =
     (case loop_body lib total_files i input_file s of
        (Some e, s') \<Rightarrow> (Some e, s')
      | (None, s') \<Rightarrow> for_loop lib total_files (i + 1) rest s')"

text \<open>The method \<^verbatim>\<open>run\<close>, as a call of it proceeds.\<close>

definition run :: "('w, 'a) transcoder \<Rightarrow> 'w run_state \<Rightarrow> exn option \<times> 'w run_state" where
  "run lib s =
     (let total_files = length (input_files (self s)) in
      case for_loop lib total_files 0 (input_files (self s)) s of
        (Some e, s') \<Rightarrow> (Some e, s')
      | (None, s') \<Rightarrow> (None, s'\<lparr>emitted := emitted s' @ [Finished]\<rparr>))"

text \<open>A thread as \<^verbatim>\<open>ConversionThread(files, output_dir)\<close> leaves it, before \<^verbatim>\<open>run\<close>.\<close>

definition new_run :: "path list \<Rightarrow> path \<Rightarrow> 'w \<Rightarrow> 'w run_state" where
  "new_run files dir w =
     \<lparr>self = \<lparr>input_files = files, output_dir = dir\<rparr>, world = w, emitted = []\<rparr>"

text \<open>
  The window never calls \<^verbatim>\<open>run\<close>; it calls \<^verbatim>\<open>start()\<close>, and Qt calls \<^verbatim>\<open>run\<close> in
  the new thread. The class attribute \<^verbatim>\<open>finished = Signal()\<close> has the name and the
  signature of \<^verbatim>\<open>QThread.finished()\<close>, the signal Qt emits itself when a started
  thread ends, whether \<^verbatim>\<open>run\<close> returned or an exception left it (the exception is
  reported and goes no further). So a started thread emits what \<^verbatim>\<open>run\<close> emits and
  then \<^verbatim>\<open>finished\<close> once more. The first component of the result is the exception
  that ended \<^verbatim>\<open>run\<close>, if any.
\<close>

definition thread_start ::
  "('w, 'a) transcoder \<Rightarrow> 'w run_state \<Rightarrow> exn option \<times> 'w run_state"
where
  "thread_start lib s =
     (case run lib s of (r, s') \<Rightarrow> (r, s'\<lparr>emitted := emitted s' @ [Finished]\<rparr>))"

text \<open>The signals of one converted file, and the arguments of the signals of a kind.\<close>

definition job_signals :: "path \<Rightarrow> nat \<Rightarrow> nat \<Rightarrow> path \<Rightarrow> signal list" where
  "job_signals dir total_files i input_file =
     [Progress (percent (i + 1) total_files),
      File_converted input_file (output_file_of dir input_file)]"

fun progress_values :: "signal list \<Rightarrow> int list" where
  "progress_values [] = []"
| "progress_values (Progress v # sigs) = v # progress_values sigs"
| "progress_values (_ # sigs) = progress_values sigs"

fun converted_sources :: "signal list \<Rightarrow> path list" where
  "converted_sources [] = []"
| "converted_sources (File_converted original_file converted_file # sigs) =
     original_file # converted_sources sigs"
| "converted_sources (_ # sigs) = converted_sources sigs"

text \<open>The signals of a run of files that all convert, the first of them at index \<open>i\<close>.\<close>

fun batch_signals :: "path \<Rightarrow> nat \<Rightarrow> nat \<Rightarrow> path list \<Rightarrow> signal list" where
  "batch_signals dir total_files i [] = []"
| "batch_signals dir total_files i (input_file # rest) =
     job_signals dir total_files i input_file @ batch_signals dir total_files (i + 1) rest"

subsection \<open>A transcoder over a disk\<close>

text \<open>
  For statements about files, the world is a disk: a map from paths to contents.
  \<^verbatim>\<open>from_file\<close> raises when the file does not exist and decodes its content otherwise;
  \<^verbatim>\<open>export\<close> writes the encoded audio at the given path, replacing what was there.
  The codec itself (\<open>decode\<close>, \<open>encode\<close>) stays a parameter.
\<close>

type_synonym 'c disk = "path \<rightharpoonup> 'c"

definition disk_transcoder ::
  "('c \<Rightarrow> exn + 'a) \<Rightarrow> ('a \<Rightarrow> 'c) \<Rightarrow> ('c disk, 'a) transcoder"
where
  "disk_transcoder decode encode =
     \<lparr>from_file = (\<lambda>d p. case d p of None \<Rightarrow> Inl MissingSource | Some c \<Rightarrow> decode c),
      export = (\<lambda>d a p. (None, d(p \<mapsto> encode a)))\<rparr>"

text \<open>A codec that accepts every file and keeps its content, and a disk holding one file.\<close>

definition plain_codec :: "(string disk, string) transcoder" where
  "plain_codec = disk_transcoder Inr (\<lambda>a. a)"

definition disk_with_a :: "string disk" where
  "disk_with_a = [''a.m4a'' \<mapsto> ''aac'']"

text \<open>A disk that holds \<^verbatim>\<open>a.m4a\<close> and \<^verbatim>\<open>c.m4a\<close>.\<close>

definition disk_with_a_c :: "string disk" where
  "disk_with_a_c = [''a.m4a'' \<mapsto> ''aac'', ''c.m4a'' \<mapsto> ''alac'']"

text \<open>A disk with two files of the same name in two directories.\<close>

definition disk_with_two :: "string disk" where
  "disk_with_two = [''/x/a.m4a'' \<mapsto> ''one'', ''/y/a.m4a'' \<mapsto> ''two'']"

subsection \<open>\<^verbatim>\<open>MainWindow\<close> (\<^verbatim>\<open>mawa.py\<close>)\<close>

text \<open>
  An entry of the list widget: its text, and the data stored under \<^verbatim>\<open>UserRole\<close> (the
  path) and \<^verbatim>\<open>UserRole + 1\<close> (converted or not).
\<close>

record list_item =
  item_label :: string
  item_path :: path
  item_converted :: bool

text \<open>
  The attributes of the window that the modelled methods read or write. The media
  player is reduced to its source; the waveform view and the visualization timer are
  left out. \<open>window_conversion_thread\<close> is the attribute \<^verbatim>\<open>self.conversion_thread\<close>,
  the only reference the window keeps to a worker.
\<close>

record main_window =
  window_input_files :: "path list"
  window_output_dir :: path
  converted_files :: "path \<rightharpoonup> path"
  file_list :: "list_item list"
  progress_bar :: int
  status_label :: string
  output_dir_label :: string
  preview_label :: string
  select_button_enabled :: bool
  output_dir_button_enabled :: bool
  media_source :: "path option"
  window_conversion_thread :: "conversion_thread option"

definition MainWindow_init :: main_window where
  "MainWindow_init =
     \<lparr>window_input_files = [], window_output_dir = [], converted_files = Map.empty,
      file_list = [], progress_bar = 0, status_label = ''Ready'',
      output_dir_label = ''Output Directory: Not selected'',
      preview_label = ''No file selected for preview'',
      select_button_enabled = True, output_dir_button_enabled = True,
      media_source = None, window_conversion_thread = None\<rparr>"

definition add_file_to_list :: "path \<Rightarrow> main_window \<Rightarrow> main_window" where
  "add_file_to_list file_path w =
     w\<lparr>file_list := file_list w @
         [\<lparr>item_label = basename file_path, item_path = file_path, item_converted = False\<rparr>]\<rparr>"

text \<open>\<^verbatim>\<open>file_path.lower().endswith('.m4a')\<close>; only ASCII letters have a lower case here.\<close>

definition lower_char :: "char \<Rightarrow> char" where
  "lower_char c =
     (let n = (of_char c :: nat) in if 65 \<le> n \<and> n \<le> 90 then char_of (n + 32) else c)"

definition endswith :: "string \<Rightarrow> string \<Rightarrow> bool" where
  "endswith s ending =
     (length ending \<le> length s \<and> drop (length s - length ending) s = ending)"

definition is_m4a :: "path \<Rightarrow> bool" where
  "is_m4a file_path = endswith (map lower_char file_path) ''.m4a''"

text \<open>
  \<^verbatim>\<open>start_conversion\<close> constructs a thread, stores it in the attribute (what the
  attribute held before is dropped) and calls \<^verbatim>\<open>start()\<close> on it. The method has no
  condition: it does not look at the attribute or at a thread that is running. What the
  started thread does is \<open>thread_start\<close> above; it is no change of the window until its
  signals arrive. When the thread that the attribute held is still running, dropping the
  reference destroys a running \<^verbatim>\<open>QThread\<close>, which ends the process; the model records
  the new attribute and does not follow the program beyond that point.
\<close>

definition start_conversion :: "path list \<Rightarrow> main_window \<Rightarrow> main_window" where
  "start_conversion files w =
     (let t = \<lparr>input_files = files, output_dir = window_output_dir w\<rparr> in
      w\<lparr>select_button_enabled := False,
        output_dir_button_enabled := False,
        status_label := ''Converting...'',
        progress_bar := 0,
        window_conversion_thread := Some t\<rparr>)"

text \<open>\<open>urls\<close> are the local files of the dropped URLs, in order.\<close>

definition dropEvent :: "path list \<Rightarrow> main_window \<Rightarrow> main_window" where
  "dropEvent urls w =
     (let new_files = filter is_m4a urls;
          w1 = foldl (\<lambda>w file_path. add_file_to_list file_path w) w new_files in
      if new_files \<noteq> [] \<and> window_output_dir w1 \<noteq> []
      then start_conversion new_files
             (w1\<lparr>window_input_files := window_input_files w1 @ new_files\<rparr>)
      else w1)"

text \<open>\<open>files\<close> is what the file dialog returned.\<close>

definition select_files :: "path list \<Rightarrow> main_window \<Rightarrow> main_window" where
  "select_files files w =
     (if files \<noteq> [] then
        (let w1 = foldl (\<lambda>w file.
                     if file \<in> set (window_input_files w) then w
                     else add_file_to_list file
                            (w\<lparr>window_input_files := window_input_files w @ [file]\<rparr>))
                   w files in
         if window_output_dir w1 \<noteq> [] then start_conversion files w1 else w1)
      else w)"

definition select_output_dir :: "path \<Rightarrow> main_window \<Rightarrow> main_window" where
  "select_output_dir dir w =
     (let w1 = w\<lparr>window_output_dir := dir\<rparr> in
      if dir \<noteq> [] then w1\<lparr>output_dir_label := ''Output Directory: '' @ dir\<rparr> else w1)"

definition update_progress :: "int \<Rightarrow> main_window \<Rightarrow> main_window" where
  "update_progress v w = w\<lparr>progress_bar := v\<rparr>"

text \<open>The loop of \<^verbatim>\<open>update_file_list_item\<close>: the first entry with the path, then \<^verbatim>\<open>break\<close>.\<close>

fun update_file_list_item :: "path \<Rightarrow> list_item list \<Rightarrow> list_item list" where
  "update_file_list_item file_path [] = []"
| "update_file_list_item file_path (item # items) =
     (if item_path item = file_path
      then item\<lparr>item_converted := True,
                item_label := basename file_path @ '' (Converted)''\<rparr> # items
      else item # update_file_list_item file_path items)"

definition load_media :: "path \<Rightarrow> main_window \<Rightarrow> main_window" where
  "load_media file_path w = w\<lparr>media_source := Some file_path\<rparr>"

definition file_converted :: "path \<Rightarrow> path \<Rightarrow> main_window \<Rightarrow> main_window" where
  "file_converted original_file converted_file w =
     load_media converted_file
       (w\<lparr>converted_files := (converted_files w)(original_file \<mapsto> converted_file),
          file_list := update_file_list_item original_file (file_list w),
          preview_label := ''Preview: '' @ basename converted_file\<rparr>)"

definition conversion_finished :: "main_window \<Rightarrow> main_window" where
  "conversion_finished w =
     w\<lparr>progress_bar := 100,
       status_label := ''Conversion complete!'',
       select_button_enabled := True,
       output_dir_button_enabled := True\<rparr>"

text \<open>
  The methods of the context menu and the click on an entry act on an entry of the list;
  \<open>row\<close> is its position. A position outside the list stands for no current entry.
\<close>

definition remove_selected_file :: "nat \<Rightarrow> main_window \<Rightarrow> main_window" where
  "remove_selected_file row w =
     (if row < length (file_list w) then
        (let file_path = item_path (file_list w ! row) in
         w\<lparr>window_input_files :=
             (if file_path \<in> set (window_input_files w)
              then remove1 file_path (window_input_files w)
              else window_input_files w),
           file_list := take row (file_list w) @ drop (Suc row) (file_list w),
           converted_files :=
             (if file_path \<in> dom (converted_files w)
              then (converted_files w)(file_path := None)
              else converted_files w)\<rparr>)
      else w)"

definition reconvert_selected_file :: "nat \<Rightarrow> main_window \<Rightarrow> main_window" where
  "reconvert_selected_file row w =
     (if row < length (file_list w) then
        (let file_path = item_path (file_list w ! row) in
         if window_output_dir w \<noteq> [] then start_conversion [file_path] w else w)
      else w)"

definition preview_converted_file :: "nat \<Rightarrow> main_window \<Rightarrow> main_window" where
  "preview_converted_file row w =
     (if row < length (file_list w) then
        (let file_path = item_path (file_list w ! row) in
         case converted_files w file_path of
           None \<Rightarrow> w
         | Some converted_file \<Rightarrow>
             load_media converted_file
               (w\<lparr>preview_label := ''Preview: '' @ basename converted_file\<rparr>))
      else w)"

text \<open>The slots \<^verbatim>\<open>start_conversion\<close> connects to the three signals.\<close>

fun deliver :: "signal \<Rightarrow> main_window \<Rightarrow> main_window" where
  "deliver (Progress v) w = update_progress v w"
| "deliver (File_converted original_file converted_file) w =
     file_converted original_file converted_file w"
| "deliver Finished w = conversion_finished w"

definition deliver_all :: "signal list \<Rightarrow> main_window \<Rightarrow> main_window" where
  "deliver_all sigs w = foldl (\<lambda>w sg. deliver sg w) w sigs"

text \<open>Everything that can happen to the window: what the user does and what arrives.\<close>

datatype action =
    DropEvent "path list"
  | SelectFiles "path list"
  | SelectOutputDir path
  | RemoveSelected nat
  | ReconvertSelected nat
  | PreviewItem nat
  | Arrives signal

fun act :: "action \<Rightarrow> main_window \<Rightarrow> main_window" where
  "act (DropEvent urls) w = dropEvent urls w"
| "act (SelectFiles files) w = select_files files w"
| "act (SelectOutputDir dir) w = select_output_dir dir w"
| "act (RemoveSelected row) w = remove_selected_file row w"
| "act (ReconvertSelected row) w = reconvert_selected_file row w"
| "act (PreviewItem row) w = preview_converted_file row w"
| "act (Arrives sg) w = deliver sg w"

definition act_all :: "action list \<Rightarrow> main_window \<Rightarrow> main_window" where
  "act_all actions w = foldl (\<lambda>w a. act a w) w actions"

text \<open>
  Whether an action writes the entry of \<open>file_path\<close> in \<^verbatim>\<open>converted_files\<close>: the
  arrival of \<^verbatim>\<open>file_converted\<close> for that path, or the removal of a list entry with it.
\<close>

fun writes_entry :: "path \<Rightarrow> main_window \<Rightarrow> action \<Rightarrow> bool" where
  "writes_entry file_path w (Arrives (File_converted original_file converted_file)) =
     (original_file = file_path)"
| "writes_entry file_path w (RemoveSelected row) =
     (row < length (file_list w) \<and> item_path (file_list w ! row) = file_path)"
| "writes_entry file_path w _ = False"

fun entry_untouched :: "path \<Rightarrow> main_window \<Rightarrow> action list \<Rightarrow> bool" where
  "entry_untouched file_path w [] = True"
| "entry_untouched file_path w (a # actions) =
     (\<not> writes_entry file_path w a \<and> entry_untouched file_path (act a w) actions)"

subsection \<open>The events of the specification\<close>

text \<open>
  The specification names five events. A worker signal is read as the event it stands
  for: \<^verbatim>\<open>file_converted\<close> as \<open>JobSucceeded\<close>, \<^verbatim>\<open>progress\<close> as \<open>BatchProgress\<close>
  (with the fraction as a percentage), \<^verbatim>\<open>finished\<close> as \<open>BatchFinished\<close>. No signal
  stands for \<open>JobStarted\<close> or \<open>JobFailed\<close>.
\<close>

datatype event =
    JobStarted path
  | JobSucceeded path path
  | JobFailed path exn
  | BatchProgress int
  | BatchFinished

fun event_of :: "signal \<Rightarrow> event" where
  "event_of (Progress v) = BatchProgress v"
| "event_of (File_converted original_file converted_file) =
     JobSucceeded original_file converted_file"
| "event_of Finished = BatchFinished"

text \<open>The event sequence the specification expects in its concrete scenario.\<close>

definition spec_scenario_events :: "event list" where
  "spec_scenario_events =
     [JobStarted ''a.m4a'', JobSucceeded ''a.m4a'' ''/out/a.wav'', BatchProgress 50,
      JobStarted ''b.m4a'', JobFailed ''b.m4a'' MissingSource, BatchProgress 100,
      BatchFinished]"

section \<open>Properties\<close>

subsection \<open>Paths\<close>

lemma rfind_absent: "c \<notin> set xs \<Longrightarrow> rfind c xs = - 1"
  by (induction xs) (auto simp: Let_def)

lemma rfind_range: "- 1 \<le> rfind c xs \<and> rfind c xs < int (length xs)"
  by (induction xs) (auto simp: Let_def)

lemma rfind_present: "c \<in> set xs \<Longrightarrow> 0 \<le> rfind c xs"
  by (induction xs) (auto simp: Let_def)

lemma rfind_suffix:
  "drop (nat (rfind c xs + 1)) xs = rev (takeWhile (\<lambda>x. x \<noteq> c) (rev xs))"
proof (induction xs)
  case Nil
  show ?case by simp
next
  case (Cons x xs)
  show ?case
  proof (cases "c \<in> set xs")
    case True
    then have r: "0 \<le> rfind c xs" by (rule rfind_present)
    then have "nat (rfind c xs + 1 + 1) = Suc (nat (rfind c xs + 1))" by simp
    with True r Cons show ?thesis
      by (auto simp: Let_def takeWhile_append)
  next
    case False
    then have r: "rfind c xs = - 1" by (rule rfind_absent)
    from False have tw: "takeWhile (\<lambda>x. x \<noteq> c) (rev xs) = rev xs"
      by (auto simp: takeWhile_eq_all_conv)
    from False r tw show ?thesis
      by (auto simp: Let_def takeWhile_append)
  qed
qed

lemma basename_spec: "basename p = spec_base_name p"
  by (simp add: basename_def spec_base_name_def rfind_suffix)

lemma basename_no_sep: "CHR ''/'' \<notin> set (basename p)"
  unfolding basename_spec spec_base_name_def
  by (metis (mono_tags, lifting) set_rev set_takeWhileD)

lemma leading_dots_end_iff:
  "j \<le> length p \<Longrightarrow>
   leading_dots_end p i j = list_ex (\<lambda>c. c \<noteq> CHR ''.'') (drop i (take j p))"
proof (induction p i j rule: leading_dots_end.induct)
  case (1 p i j)
  show ?case
  proof (cases "i < j")
    case True
    with "1.prems" have il: "i < length (take j p)" by simp
    have d: "drop i (take j p) = (take j p ! i) # drop (Suc i) (take j p)"
      by (rule Cons_nth_drop_Suc[OF il, symmetric])
    have n: "take j p ! i = p ! i" using True by simp
    show ?thesis
    proof (cases "p ! i \<noteq> CHR ''.''")
      case True
      with \<open>i < j\<close> d n show ?thesis
        by (subst leading_dots_end.simps) simp
    next
      case False
      with \<open>i < j\<close> d n "1.IH" "1.prems" show ?thesis
        by (subst leading_dots_end.simps) simp
    qed
  next
    case False
    then show ?thesis
      by (subst leading_dots_end.simps) simp
  qed
qed


lemma splitext_name:
  assumes "CHR ''/'' \<notin> set name"
  shows "fst (splitext name) = spec_without_extension name"
proof -
  from assms have sep: "rfind CHR ''/'' name = - 1" by (rule rfind_absent)
  show ?thesis
  proof (cases "CHR ''.'' \<in> set name")
    case False
    then have "rfind CHR ''.'' name = - 1" by (rule rfind_absent)
    with sep False show ?thesis
      by (simp add: splitext_def spec_without_extension_def)
  next
    case True
    define d where "d = rfind CHR ''.'' name"
    from True have d0: "0 \<le> d" unfolding d_def by (rule rfind_present)
    have dl: "d < int (length name)" unfolding d_def using rfind_range by blast
    have ext: "rev (takeWhile (\<lambda>c. c \<noteq> CHR ''.'') (rev name)) = drop (nat (d + 1)) name"
      unfolding d_def by (rule rfind_suffix[symmetric])
    have len: "length name - length (drop (nat (d + 1)) name) - 1 = nat d"
      using d0 dl by (simp add: nat_add_distrib)
    have lde: "leading_dots_end name 0 (nat d)
                 = list_ex (\<lambda>c. c \<noteq> CHR ''.'') (take (nat d) name)"
      using leading_dots_end_iff[of "nat d" name 0] d0 dl by simp
    show ?thesis
      using sep True d0 lde len
      by (simp add: splitext_def spec_without_extension_def ext Let_def flip: d_def)
  qed
qed

lemma spec_without_extension_set:
  "set (spec_without_extension name) \<subseteq> set name"
  by (auto simp: spec_without_extension_def Let_def dest: in_set_takeD)

lemma path_join_plain:
  assumes "CHR ''/'' \<notin> set stem"
  shows "path_join d (stem @ ''.wav'')
           = (if d = [] \<or> last d = CHR ''/'' then d else d @ ''/'') @ stem @ ''.wav''"
proof -
  have "take 1 (stem @ ''.wav'') \<noteq> ''/''"
    using assms by (cases stem) auto
  then show ?thesis by (simp add: path_join_def)
qed

text \<open>
  Claim C5. For every job, the output path computed by \<^verbatim>\<open>run\<close> is the destination
  directory joined with the base name of the source file, its extension replaced by
  \<^verbatim>\<open>.wav\<close>: the index arithmetic of \<^verbatim>\<open>os.path\<close> computes exactly the path the
  specification describes.
\<close>

theorem output_file_is_spec_destinationPath:
  "output_file_of dir src = spec_destinationPath dir src"
proof -
  have ns: "CHR ''/'' \<notin> set (basename src)" by (rule basename_no_sep)
  then have st: "fst (splitext (basename src))
                   = spec_without_extension (basename src)"
    by (rule splitext_name)
  have "CHR ''/'' \<notin> set (spec_without_extension (basename src))"
    using ns spec_without_extension_set by blast
  then show ?thesis
    unfolding output_file_of_def spec_destinationPath_def st
    by (simp add: path_join_plain basename_spec)
qed

subsection \<open>The progress value\<close>

lemma round_half_even_floor: "\<lfloor>x\<rfloor> \<le> round_half_even x"
  by (simp add: round_half_even_def Let_def)

lemma round_half_even_ceil: "round_half_even x \<le> \<lfloor>x\<rfloor> + 1"
  by (simp add: round_half_even_def Let_def)

lemma round_half_even_of_int: "round_half_even (of_int n) = n"
  by (simp add: round_half_even_def Let_def)

lemma round_half_even_mono:
  assumes "x \<le> y"
  shows "round_half_even x \<le> round_half_even y"
proof (cases "\<lfloor>x\<rfloor> = \<lfloor>y\<rfloor>")
  case True
  from assms have "x - of_int \<lfloor>y\<rfloor> \<le> y - of_int \<lfloor>y\<rfloor>" by simp
  with True show ?thesis
    by (auto simp: round_half_even_def Let_def)
next
  case False
  with assms have "\<lfloor>x\<rfloor> < \<lfloor>y\<rfloor>"
    using floor_mono[OF assms] by linarith
  then have "round_half_even x \<le> \<lfloor>y\<rfloor>"
    using round_half_even_ceil[of x] by linarith
  then show ?thesis
    using round_half_even_floor[of y] by linarith
qed

lemma two_powi_int: "0 \<le> n \<Longrightarrow> (2::rat) powi n = of_int (2 ^ nat n)"
  by (simp add: power_int_nonneg_exp)

lemma expo_bounds:
  assumes "0 < x"
  shows "2 powi (expo x) \<le> x \<and> x < 2 powi (expo x + 1)"
proof -
  obtain p q where pq: "quotient_of x = (p, q)" by (cases "quotient_of x")
  have q0: "0 < q" using pq by (rule quotient_of_denom_pos)
  have x: "x = of_int p / of_int q" using pq by (rule quotient_of_div)
  have p0: "0 < p"
    using assms q0 unfolding x by (simp add: zero_less_divide_iff)
  define bp where "bp = bitlen p"
  define bq where "bq = bitlen q"
  have bp1: "1 \<le> bp" using p0 unfolding bp_def by (simp add: bitlen_alt_def)
  have bq1: "1 \<le> bq" using q0 unfolding bq_def by (simp add: bitlen_alt_def)
  from bitlen_bounds[OF p0] have "2 ^ nat (bp - 1) \<le> p" "p < 2 ^ nat bp"
    unfolding bp_def by simp_all
  then have P: "(2::rat) powi (bp - 1) \<le> of_int p" "(of_int p :: rat) < 2 powi bp"
    using bp1 by (simp_all add: two_powi_int flip: of_int_le_iff of_int_less_iff)
  from bitlen_bounds[OF q0] have "2 ^ nat (bq - 1) \<le> q" "q < 2 ^ nat bq"
    unfolding bq_def by simp_all
  then have Q: "(2::rat) powi (bq - 1) \<le> of_int q" "(of_int q :: rat) < 2 powi bq"
    using bq1 by (simp_all add: two_powi_int flip: of_int_le_iff of_int_less_iff)
  have pp: "(0::rat) < of_int p" and qq: "(0::rat) < of_int q" using p0 q0 by simp_all
  have "x < 2 powi bp / 2 powi (bq - 1)"
    unfolding x using P(2) Q(1) pp by (intro frac_less) simp_all
  also have "2 powi bp / 2 powi (bq - 1) = (2::rat) powi (bp - (bq - 1))"
    by (rule power_int_diff[symmetric]) simp
  also have "bp - (bq - 1) = bp - bq + 1" by simp
  finally have up: "x < 2 powi (bp - bq + 1)" .
  have "2 powi (bp - 1) / 2 powi bq < x"
    unfolding x using P(1) Q(2) qq by (intro frac_less2) simp_all
  moreover have "2 powi (bp - 1) / 2 powi bq = (2::rat) powi (bp - 1 - bq)"
    by (rule power_int_diff[symmetric]) simp
  moreover have "bp - 1 - bq = bp - bq - 1" by simp
  ultimately have lo: "2 powi (bp - bq - 1) < x" by simp
  have e: "expo x = (if 2 powi (bp - bq) \<le> x then bp - bq else bp - bq - 1)"
    by (simp add: expo_def pq bp_def bq_def)
  show ?thesis
  proof (cases "2 powi (bp - bq) \<le> x")
    case True
    with e up show ?thesis by simp
  next
    case False
    with e lo show ?thesis by simp
  qed
qed

lemma expo_mono:
  assumes "0 < x" "x \<le> y"
  shows "expo x \<le> expo y"
proof (rule ccontr)
  assume "\<not> expo x \<le> expo y"
  then have "expo y + 1 \<le> expo x" by simp
  then have "(2::rat) powi (expo y + 1) \<le> 2 powi (expo x)"
    by (intro power_int_increasing) simp_all
  moreover have "2 powi (expo x) \<le> x" using expo_bounds[OF assms(1)] by simp
  moreover have "y < 2 powi (expo y + 1)" using expo_bounds[of y] assms by simp
  ultimately show False using assms(2) by linarith
qed

lemma rn_pos:
  assumes "0 < x"
  shows "rn x = of_int (round_half_even (x * 2 powi (52 - expo x))) * 2 powi (expo x - 52)"
  using assms by (simp add: rn_def Let_def)

lemma mantissa_bounds:
  assumes "0 < x"
  shows "2 ^ 52 \<le> round_half_even (x * 2 powi (52 - expo x))"
    and "round_half_even (x * 2 powi (52 - expo x)) \<le> 2 ^ 53"
proof -
  define e where "e = expo x"
  define m where "m = x * 2 powi (52 - e)"
  have b: "2 powi e \<le> x" "x < 2 powi (e + 1)"
    using expo_bounds[OF assms] unfolding e_def by simp_all
  have s0: "(0::rat) < 2 powi (52 - e)" by simp
  have "2 powi e * 2 powi (52 - e) \<le> m"
    unfolding m_def using b(1) s0 by (intro mult_right_mono) simp_all
  then have lo: "of_int (2 ^ 52) \<le> m"
    by (simp flip: power_int_add)
  have "m < 2 powi (e + 1) * 2 powi (52 - e)"
    unfolding m_def using b(2) s0 by (intro mult_strict_right_mono) simp_all
  then have hi: "m \<le> of_int (2 ^ 53)"
    by (simp flip: power_int_add)
  have "round_half_even (of_int (2 ^ 52)) \<le> round_half_even m"
    using lo by (rule round_half_even_mono)
  then show "2 ^ 52 \<le> round_half_even (x * 2 powi (52 - expo x))"
    unfolding round_half_even_of_int m_def e_def .
  have "round_half_even m \<le> round_half_even (of_int (2 ^ 53))"
    using hi by (rule round_half_even_mono)
  then show "round_half_even (x * 2 powi (52 - expo x)) \<le> 2 ^ 53"
    unfolding round_half_even_of_int m_def e_def .
qed

lemma rn_bounds:
  assumes "0 < x"
  shows "2 powi (expo x) \<le> rn x" and "rn x \<le> 2 powi (expo x + 1)"
proof -
  define e where "e = expo x"
  define m where "m = round_half_even (x * 2 powi (52 - e))"
  have r: "rn x = of_int m * 2 powi (e - 52)"
    unfolding m_def e_def using assms by (rule rn_pos)
  have m: "2 ^ 52 \<le> m" "m \<le> 2 ^ 53"
    unfolding m_def e_def using mantissa_bounds[OF assms] by simp_all
  have s0: "(0::rat) \<le> 2 powi (e - 52)" by simp
  from m(1) have "(of_int (2 ^ 52) :: rat) \<le> of_int m" by (simp only: of_int_le_iff)
  then have A: "(2::rat) powi 52 \<le> of_int m" by simp
  have eq52: "52 + (e - 52) = e" by simp
  have "(2::rat) powi (52 + (e - 52)) = 2 powi 52 * 2 powi (e - 52)"
    by (rule power_int_add) simp
  then have A': "(2::rat) powi e = 2 powi 52 * 2 powi (e - 52)"
    by (simp only: eq52)
  have "(2::rat) powi 52 * 2 powi (e - 52) \<le> of_int m * 2 powi (e - 52)"
    using A s0 by (rule mult_right_mono)
  then show "2 powi (expo x) \<le> rn x"
    unfolding r e_def[symmetric] A' .
  from m(2) have "(of_int m :: rat) \<le> of_int (2 ^ 53)" by (simp only: of_int_le_iff)
  then have B: "of_int m \<le> (2::rat) powi 53" by simp
  have eq53: "53 + (e - 52) = e + 1" by simp
  have "(2::rat) powi (53 + (e - 52)) = 2 powi 53 * 2 powi (e - 52)"
    by (rule power_int_add) simp
  then have B': "(2::rat) powi (e + 1) = 2 powi 53 * 2 powi (e - 52)"
    by (simp only: eq53)
  have "of_int m * 2 powi (e - 52) \<le> (2::rat) powi 53 * 2 powi (e - 52)"
    using B s0 by (rule mult_right_mono)
  then show "rn x \<le> 2 powi (expo x + 1)"
    unfolding r e_def[symmetric] B' .
qed

lemma rn_mono_pos:
  assumes "0 < x" "x \<le> y"
  shows "rn x \<le> rn y"
proof -
  have y0: "0 < y" using assms by simp
  have le: "expo x \<le> expo y" using assms by (rule expo_mono)
  show ?thesis
  proof (cases "expo x = expo y")
    case True
    have "x * 2 powi (52 - expo y) \<le> y * 2 powi (52 - expo y)"
      using assms(2) by (intro mult_right_mono) simp_all
    then have "round_half_even (x * 2 powi (52 - expo y))
                 \<le> round_half_even (y * 2 powi (52 - expo y))"
      by (rule round_half_even_mono)
    then have "(of_int (round_half_even (x * 2 powi (52 - expo y))) :: rat) * 2 powi (expo y - 52)
                 \<le> of_int (round_half_even (y * 2 powi (52 - expo y))) * 2 powi (expo y - 52)"
      by (intro mult_right_mono) simp_all
    then show ?thesis
      unfolding rn_pos[OF assms(1)] rn_pos[OF y0] True .
  next
    case False
    with le have "expo x + 1 \<le> expo y" by simp
    then have "(2::rat) powi (expo x + 1) \<le> 2 powi (expo y)"
      by (intro power_int_increasing) simp_all
    with rn_bounds(2)[OF assms(1)] rn_bounds(1)[OF y0] show ?thesis by linarith
  qed
qed

lemma rn_zero: "rn 0 = 0"
  by (simp add: rn_def)

lemma rn_positive: "0 < x \<Longrightarrow> 0 < rn x"
  using rn_bounds(1)[of x] zero_less_power_int[of "2::rat" "expo x"] by linarith

lemma rn_mono:
  assumes "0 \<le> x" "x \<le> y"
  shows "rn x \<le> rn y"
proof (cases "x = 0")
  case True
  show ?thesis
  proof (cases "y = 0")
    case True
    with \<open>x = 0\<close> show ?thesis by simp
  next
    case False
    with assms True have "0 < y" by simp
    then have "0 < rn y" by (rule rn_positive)
    with True show ?thesis by (simp add: rn_zero)
  qed
next
  case False
  with assms have "0 < x" by simp
  then show ?thesis using assms(2) by (rule rn_mono_pos)
qed

lemma trunc_mono: "0 \<le> x \<Longrightarrow> x \<le> y \<Longrightarrow> trunc x \<le> trunc y"
  by (simp add: trunc_def floor_mono)

lemma percent_mono:
  assumes "k \<le> k'"
  shows "percent k n \<le> percent k' n"
proof -
  have a: "(0::rat) \<le> of_nat k / of_nat n" by simp
  have b: "(of_nat k :: rat) / of_nat n \<le> of_nat k' / of_nat n"
    using assms by (simp add: divide_right_mono)
  have c: "rn (of_nat k / of_nat n) \<le> rn (of_nat k' / of_nat n)"
    using a b by (rule rn_mono)
  have d: "0 \<le> rn (of_nat k / of_nat n)"
    using rn_mono[OF order_refl a] by (simp add: rn_zero)
  have e: "0 \<le> rn (of_nat k / of_nat n) * 100" using d by simp
  have f: "rn (of_nat k / of_nat n) * 100 \<le> rn (of_nat k' / of_nat n) * 100" using c by simp
  have g: "rn (rn (of_nat k / of_nat n) * 100) \<le> rn (rn (of_nat k' / of_nat n) * 100)"
    using e f by (rule rn_mono)
  have h: "0 \<le> rn (rn (of_nat k / of_nat n) * 100)"
    using rn_mono[OF order_refl e] by (simp add: rn_zero)
  show ?thesis unfolding percent_def using h g by (rule trunc_mono)
qed

lemma rn_one: "rn 1 = 1"
  by code_simp

lemma rn_hundred: "rn 100 = 100"
  by code_simp

lemma percent_full: "0 < n \<Longrightarrow> percent n n = 100"
  by (simp add: percent_def rn_one rn_hundred trunc_def)

lemma rn_below_one:
  "rn (9007199254740991 / 9007199254740992) = 9007199254740991 / 9007199254740992"
  by code_simp

lemma rn_below_hundred:
  "rn (9007199254740991 / 9007199254740992 * 100) < 100"
  by code_simp

lemma trunc_below:
  assumes "x < of_int m" and "0 \<le> x"
  shows "trunc x < m"
  using assms by (simp add: trunc_def floor_less_iff)

lemma percent_below_full:
  assumes "k < n" and "n \<le> 2 ^ 53"
  shows "percent k n < 100"
proof -
  have n0: "(0::rat) < of_nat n" using assms(1) by simp
  have "(of_nat n :: rat) \<le> of_nat (2 ^ 53)" using assms(2) by (simp only: of_nat_le_iff)
  then have nb: "(of_nat n :: rat) \<le> 9007199254740992" by simp
  from assms(1) have "Suc k \<le> n" by simp
  then have "(of_nat (Suc k) :: rat) \<le> of_nat n" by (simp only: of_nat_le_iff)
  then have "(of_nat k :: rat) + 1 \<le> of_nat n" by simp
  then have "(of_nat k :: rat) / of_nat n \<le> (of_nat n - 1) / of_nat n"
    using n0 by (intro divide_right_mono) simp_all
  also have "\<dots> = 1 - 1 / of_nat n" using n0 by (simp add: field_simps)
  also have "\<dots> \<le> 1 - 1 / 9007199254740992"
    using n0 nb by (simp add: field_simps)
  also have "\<dots> = 9007199254740991 / 9007199254740992" by simp
  finally have q: "(of_nat k :: rat) / of_nat n \<le> 9007199254740991 / 9007199254740992" .
  have q0: "(0::rat) \<le> of_nat k / of_nat n" by simp
  have r1: "rn (of_nat k / of_nat n) \<le> 9007199254740991 / 9007199254740992"
    using rn_mono[OF q0 q] by (simp only: rn_below_one)
  have r0: "0 \<le> rn (of_nat k / of_nat n)"
    using rn_mono[OF order_refl q0] by (simp add: rn_zero)
  have p0: "0 \<le> rn (of_nat k / of_nat n) * 100" using r0 by simp
  have p1: "rn (of_nat k / of_nat n) * 100 \<le> 9007199254740991 / 9007199254740992 * 100"
    using r1 by simp
  have "rn (rn (of_nat k / of_nat n) * 100) \<le> rn (9007199254740991 / 9007199254740992 * 100)"
    using p0 p1 by (rule rn_mono)
  then have lt: "rn (rn (of_nat k / of_nat n) * 100) < of_int 100"
    using rn_below_hundred by simp
  have ge: "0 \<le> rn (rn (of_nat k / of_nat n) * 100)"
    using rn_mono[OF order_refl p0] by (simp add: rn_zero)
  show ?thesis unfolding percent_def using lt ge by (rule trunc_below)
qed

lemma count_full_percent:
  assumes "k \<le> n" and "n \<le> 2 ^ 53"
  shows "count_list (map (\<lambda>j. percent j n) [1..<Suc k]) 100
           = (if k = n \<and> 0 < n then 1 else 0)"
proof -
  have below: "100 \<notin> set (map (\<lambda>j. percent j n) [1..<Suc m])" if "m < n" for m
  proof
    assume "100 \<in> set (map (\<lambda>j. percent j n) [1..<Suc m])"
    then have "\<exists>j\<in>set [1..<Suc m]. percent j n = 100" by auto
    then obtain j where jm: "j \<in> set [1..<Suc m]" and "percent j n = 100" by blast
    from jm have "j \<le> m" by auto
    note j = this \<open>percent j n = 100\<close>
    with that have "j < n" by simp
    from percent_below_full[OF this assms(2)] j(2) show False by simp
  qed
  show ?thesis
  proof (cases "k = n \<and> 0 < n")
    case False
    show ?thesis
    proof (cases "k < n")
      case True
      from below[OF True] have "count_list (map (\<lambda>j. percent j n) [1..<Suc k]) 100 = 0"
        by (rule iffD2[OF count_list_0_iff])
      with False show ?thesis by simp
    next
      case nk: False
      with assms(1) False have "k = 0" by simp
      with False show ?thesis by simp
    qed
  next
    case True
    then obtain m where m: "n = Suc m" by (cases n) auto
    have "m < n" using m by simp
    from below[OF this] have z: "count_list (map (\<lambda>j. percent j n) [1..<Suc m]) 100 = 0"
      by (rule iffD2[OF count_list_0_iff])
    have "[1..<Suc n] = [1..<Suc m] @ [n]" using m by simp
    then have "count_list (map (\<lambda>j. percent j n) [1..<Suc n]) 100
                = count_list (map (\<lambda>j. percent j n) [1..<Suc m]) 100
                  + count_list [percent n n] 100"
      by (simp only: map_append count_list_append list.map)
    also have "\<dots> = 1" using z True by (simp add: percent_full)
    finally show ?thesis using True by simp
  qed
qed

subsection \<open>The loop of \<^verbatim>\<open>run\<close>\<close>

lemma loop_body_raise:
  assumes "loop_body lib n i f s = (Some e, s')"
  shows "emitted s' = emitted s \<and> self s' = self s"
  using assms
  by (auto simp: loop_body_def Let_def split: sum.splits prod.splits option.splits)

lemma loop_body_return:
  assumes "loop_body lib n i f s = (None, s')"
  shows "emitted s' = emitted s @ job_signals (output_dir (self s)) n i f \<and> self s' = self s"
  using assms
  by (auto simp: loop_body_def job_signals_def Let_def split: sum.splits prod.splits option.splits)

lemma loop_body_self: "self (snd (loop_body lib n i f s)) = self s"
  by (cases "loop_body lib n i f s") (metis loop_body_raise loop_body_return not_Some_eq snd_conv)

lemma for_loop_self: "self (snd (for_loop lib n i fs s)) = self s"
proof (induction fs arbitrary: i s)
  case Nil
  show ?case by simp
next
  case (Cons f fs)
  obtain r s1 where b: "loop_body lib n i f s = (r, s1)" by (cases "loop_body lib n i f s")
  have s1: "self s1 = self s" using loop_body_self[of lib n i f s] b by simp
  show ?case
  proof (cases r)
    case None
    with b s1 Cons.IH[of "i + 1" s1] show ?thesis by simp
  next
    case (Some e)
    with b s1 show ?thesis by simp
  qed
qed

lemma for_loop_append:
  "for_loop lib n i (xs @ ys) s =
     (case for_loop lib n i xs s of
        (Some e, s') \<Rightarrow> (Some e, s')
      | (None, s') \<Rightarrow> for_loop lib n (i + length xs) ys s')"
proof (induction xs arbitrary: i s)
  case Nil
  show ?case by simp
next
  case (Cons x xs)
  obtain r s1 where b: "loop_body lib n i x s = (r, s1)" by (cases "loop_body lib n i x s")
  show ?case
  proof (cases r)
    case None
    with b Cons.IH[of "i + 1" s1] show ?thesis
      by (simp split: prod.splits option.splits)
  next
    case (Some e)
    with b show ?thesis by simp
  qed
qed

lemma progress_values_append:
  "progress_values (xs @ ys) = progress_values xs @ progress_values ys"
  by (induction xs rule: progress_values.induct) simp_all

lemma converted_sources_append:
  "converted_sources (xs @ ys) = converted_sources xs @ converted_sources ys"
  by (induction xs rule: converted_sources.induct) simp_all

lemma progress_values_batch:
  "progress_values (batch_signals d n i fs) = map (\<lambda>k. percent k n) [Suc i..<Suc (i + length fs)]"
proof (induction fs arbitrary: i)
  case Nil
  show ?case by simp
next
  case (Cons f fs)
  have "[Suc i..<Suc (i + length (f # fs))] = Suc i # [Suc (Suc i)..<Suc (Suc i + length fs)]"
    by (simp add: upt_rec)
  with Cons.IH[of "i + 1"] show ?case
    by (simp add: job_signals_def)
qed

lemma converted_sources_batch: "converted_sources (batch_signals d n i fs) = fs"
  by (induction fs arbitrary: i) (simp_all add: job_signals_def)

lemma sorted_percents: "sorted (map (\<lambda>k. percent k n) [a..<b])"
  by (simp add: sorted_map sorted_wrt_iff_nth_less percent_mono)

subsection \<open>The loop and the collaborator\<close>

lemma loop_body_transcode:
  "loop_body lib n i f s =
     (case transcode lib (world s) f (output_file_of (output_dir (self s)) f) of
        (Some e, w') \<Rightarrow> (Some e, s\<lparr>world := w'\<rparr>)
      | (None, w') \<Rightarrow>
          (None, s\<lparr>world := w',
                   emitted := emitted s @ job_signals (output_dir (self s)) n i f\<rparr>))"
  by (simp add: loop_body_def transcode_def job_signals_def Let_def
           split: sum.splits prod.splits option.splits)

lemma for_loop_transcode_all:
  assumes "transcode_all lib (output_dir (self s)) (world s) fs = Some w'"
  shows "for_loop lib n i fs s =
           (None, s\<lparr>world := w',
                    emitted := emitted s @ batch_signals (output_dir (self s)) n i fs\<rparr>)"
  using assms
proof (induction fs arbitrary: i s)
  case Nil
  then show ?case by simp
next
  case (Cons f fs)
  obtain r w1 where t: "transcode lib (world s) f (output_file_of (output_dir (self s)) f) = (r, w1)"
    by (cases "transcode lib (world s) f (output_file_of (output_dir (self s)) f)")
  from Cons.prems t have r: "r = None" by (cases r) simp_all
  define s1 where "s1 = s\<lparr>world := w1,
                    emitted := emitted s @ job_signals (output_dir (self s)) n i f\<rparr>"
  have b: "loop_body lib n i f s = (None, s1)"
    by (simp add: loop_body_transcode t r s1_def)
  have "transcode_all lib (output_dir (self s1)) (world s1) fs = Some w'"
    using Cons.prems t r by (simp add: s1_def)
  from Cons.IH[OF this, of "i + 1"] b show ?case
    by (simp add: s1_def)
qed

lemma run_outcome:
  assumes "k \<le> length files"
    and "transcode_all lib dir w (take k files) = Some wk"
    and "k < length files \<longrightarrow>
           fst (transcode lib wk (files ! k) (output_file_of dir (files ! k))) \<noteq> None"
  shows "run lib (new_run files dir w) =
           (if k = length files
            then (None,
                  \<lparr>self = \<lparr>input_files = files, output_dir = dir\<rparr>, world = wk,
                   emitted = batch_signals dir (length files) 0 files @ [Finished]\<rparr>)
            else (fst (transcode lib wk (files ! k) (output_file_of dir (files ! k))),
                  \<lparr>self = \<lparr>input_files = files, output_dir = dir\<rparr>,
                   world = snd (transcode lib wk (files ! k) (output_file_of dir (files ! k))),
                   emitted = batch_signals dir (length files) 0 (take k files)\<rparr>))"
proof -
  define s0 :: "'a run_state" where "s0 = new_run files dir w"
  have d: "output_dir (self s0) = dir" "world s0 = w" "emitted s0 = []"
    "input_files (self s0) = files"
    by (simp_all add: s0_def new_run_def)
  define sk where "sk = s0\<lparr>world := wk,
                     emitted := batch_signals dir (length files) 0 (take k files)\<rparr>"
  have pre: "for_loop lib (length files) 0 (take k files) s0 = (None, sk)"
    using for_loop_transcode_all[of lib s0 "take k files" wk "length files" 0] assms(2)
    by (simp add: d sk_def)
  show ?thesis
  proof (cases "k = length files")
    case True
    with pre have "for_loop lib (length files) 0 files s0 = (None, sk)" by simp
    then show ?thesis
      using True by (simp add: run_def d sk_def s0_def[symmetric])
  next
    case False
    with assms(1) have kl: "k < length files" by simp
    obtain e w' where t: "transcode lib wk (files ! k) (output_file_of dir (files ! k)) = (Some e, w')"
      using assms(3) kl
      by (cases "transcode lib wk (files ! k) (output_file_of dir (files ! k))") auto
    have b: "loop_body lib (length files) k (files ! k) sk = (Some e, sk\<lparr>world := w'\<rparr>)"
      by (simp add: loop_body_transcode sk_def d t)
    have f: "files = take k files @ files ! k # drop (Suc k) files"
      using kl by (rule id_take_nth_drop)
    have lk: "length (take k files) = k" using kl by simp
    have "for_loop lib (length files) 0 (take k files @ files ! k # drop (Suc k) files) s0
            = (Some e, sk\<lparr>world := w'\<rparr>)"
      unfolding for_loop_append using pre b lk by simp
    with f have "for_loop lib (length files) 0 files s0 = (Some e, sk\<lparr>world := w'\<rparr>)"
      by simp
    then show ?thesis
      using False t by (simp add: run_def d sk_def s0_def[symmetric])
  qed
qed

lemma thread_start_outcome:
  assumes "k \<le> length files"
    and "transcode_all lib dir w (take k files) = Some wk"
    and "k < length files \<longrightarrow>
           fst (transcode lib wk (files ! k) (output_file_of dir (files ! k))) \<noteq> None"
  shows "thread_start lib (new_run files dir w) =
           (if k = length files
            then (None,
                  \<lparr>self = \<lparr>input_files = files, output_dir = dir\<rparr>, world = wk,
                   emitted = batch_signals dir (length files) 0 files @ [Finished, Finished]\<rparr>)
            else (fst (transcode lib wk (files ! k) (output_file_of dir (files ! k))),
                  \<lparr>self = \<lparr>input_files = files, output_dir = dir\<rparr>,
                   world = snd (transcode lib wk (files ! k) (output_file_of dir (files ! k))),
                   emitted = batch_signals dir (length files) 0 (take k files) @ [Finished]\<rparr>))"
  unfolding thread_start_def run_outcome[OF assms] by simp

lemma event_of_not_failed: "JobFailed p e \<notin> set (map event_of sigs)"
proof
  assume "JobFailed p e \<in> set (map event_of sigs)"
  then obtain sg where "event_of sg = JobFailed p e" by auto
  then show False by (cases sg) simp_all
qed

subsection \<open>The window\<close>

lemma add_files_frame:
  "converted_files (foldl (\<lambda>w file_path. add_file_to_list file_path w) w fs) = converted_files w
   \<and> window_output_dir (foldl (\<lambda>w file_path. add_file_to_list file_path w) w fs)
       = window_output_dir w"
  by (induction fs arbitrary: w) (simp_all add: add_file_to_list_def)

lemma select_loop_frame:
  "converted_files (foldl (\<lambda>w file.
       if file \<in> set (window_input_files w) then w
       else add_file_to_list file (w\<lparr>window_input_files := window_input_files w @ [file]\<rparr>))
     w fs) = converted_files w
   \<and> window_output_dir (foldl (\<lambda>w file.
       if file \<in> set (window_input_files w) then w
       else add_file_to_list file (w\<lparr>window_input_files := window_input_files w @ [file]\<rparr>))
     w fs) = window_output_dir w"
  by (induction fs arbitrary: w) (simp_all add: add_file_to_list_def)

lemma start_conversion_cache:
  "converted_files (start_conversion files w) = converted_files w"
  by (simp add: start_conversion_def Let_def)

lemma dropEvent_cache: "converted_files (dropEvent urls w) = converted_files w"
  by (simp add: dropEvent_def Let_def start_conversion_cache add_files_frame)

lemma select_files_cache: "converted_files (select_files files w) = converted_files w"
  by (simp add: select_files_def Let_def start_conversion_cache select_loop_frame)

lemma act_keeps_entry:
  assumes "\<not> writes_entry p w a"
  shows "converted_files (act a w) p = converted_files w p"
proof (cases a)
  case (DropEvent urls)
  then show ?thesis by (simp add: dropEvent_cache)
next
  case (SelectFiles files)
  then show ?thesis by (simp add: select_files_cache)
next
  case (SelectOutputDir dir)
  then show ?thesis by (simp add: select_output_dir_def Let_def)
next
  case (RemoveSelected row)
  with assms show ?thesis by (auto simp: remove_selected_file_def Let_def)
next
  case (ReconvertSelected row)
  then show ?thesis
    by (simp add: reconvert_selected_file_def Let_def start_conversion_cache)
next
  case (PreviewItem row)
  then show ?thesis
    by (simp add: preview_converted_file_def Let_def load_media_def split: option.splits)
next
  case (Arrives sg)
  with assms show ?thesis
    by (cases sg)
       (simp_all add: update_progress_def file_converted_def load_media_def
          conversion_finished_def)
qed

lemma act_all_keeps_entry:
  assumes "entry_untouched p w actions"
  shows "converted_files (act_all actions w) p = converted_files w p"
  using assms
proof (induction actions arbitrary: w)
  case Nil
  show ?case by (simp add: act_all_def)
next
  case (Cons a actions)
  from Cons.prems have a: "\<not> writes_entry p w a" and r: "entry_untouched p (act a w) actions"
    by simp_all
  have "converted_files (act_all (a # actions) w) p
          = converted_files (act_all actions (act a w)) p"
    by (simp add: act_all_def)
  also have "\<dots> = converted_files (act a w) p" using r by (rule Cons.IH)
  also have "\<dots> = converted_files w p" using a by (rule act_keeps_entry)
  finally show ?case .
qed

lemma file_converted_entry:
  "converted_files (file_converted original_file converted_file w) original_file
     = Some converted_file"
  by (simp add: file_converted_def load_media_def)

lemma basename_a: "basename ''a.m4a'' = ''a.m4a''"
  by code_simp

lemma loop_body_disk_return:
  assumes "loop_body (disk_transcoder decode encode) n i f st = (None, st')"
  shows "\<exists>c a. world st f = Some c \<and> decode c = Inr a
           \<and> world st' = (world st)(output_file_of (output_dir (self st)) f \<mapsto> encode a)
           \<and> emitted st' = emitted st @ job_signals (output_dir (self st)) n i f"
  using assms
  by (auto simp: loop_body_def disk_transcoder_def job_signals_def Let_def
           split: option.splits sum.splits)

lemma same_basename_same_output:
  "basename s1 = basename s2 \<Longrightarrow> output_file_of dir s1 = output_file_of dir s2"
  by (simp add: output_file_of_def)

lemma deliver_job_signals:
  "converted_files (deliver_all (job_signals dir n i f) w)
     = (converted_files w)(f \<mapsto> output_file_of dir f)"
  by (simp add: deliver_all_def job_signals_def update_progress_def file_converted_def
        load_media_def)

lemma deliver_all_append:
  "deliver_all (xs @ ys) w = deliver_all ys (deliver_all xs w)"
  by (simp add: deliver_all_def)

lemma out_x: "output_file_of ''/out'' ''/x/a.m4a'' = ''/out/a.wav''"
  by code_simp

lemma out_y: "output_file_of ''/out'' ''/y/a.m4a'' = ''/out/a.wav''"
  by code_simp

lemma basename_x_y: "basename ''/x/a.m4a'' = basename ''/y/a.m4a''"
  by code_simp

lemma percent_1_2': "percent (Suc 0) 2 = 50"
  by code_simp

lemma percent_2_2': "percent (Suc (Suc 0)) 2 = 100"
  by code_simp

lemma loop_body_x:
  "loop_body (disk_transcoder Inr (\<lambda>a. a)) 2 0 ''/x/a.m4a''
     (new_run [''/x/a.m4a'', ''/y/a.m4a''] ''/out'' disk_with_two) =
     (None,
      \<lparr>self = \<lparr>input_files = [''/x/a.m4a'', ''/y/a.m4a''], output_dir = ''/out''\<rparr>,
       world = disk_with_two(''/out/a.wav'' \<mapsto> ''one''),
       emitted = [Progress 50, File_converted ''/x/a.m4a'' ''/out/a.wav'']\<rparr>)"
  by (simp add: new_run_def loop_body_def Let_def disk_transcoder_def
        disk_with_two_def out_x percent_1_2')

lemma loop_body_y:
  "loop_body (disk_transcoder Inr (\<lambda>a. a)) 2 1 ''/y/a.m4a''
     \<lparr>self = \<lparr>input_files = [''/x/a.m4a'', ''/y/a.m4a''], output_dir = ''/out''\<rparr>,
      world = disk_with_two(''/out/a.wav'' \<mapsto> ''one''),
      emitted = [Progress 50, File_converted ''/x/a.m4a'' ''/out/a.wav'']\<rparr> =
     (None,
      \<lparr>self = \<lparr>input_files = [''/x/a.m4a'', ''/y/a.m4a''], output_dir = ''/out''\<rparr>,
       world = disk_with_two(''/out/a.wav'' \<mapsto> ''two''),
       emitted = [Progress 50, File_converted ''/x/a.m4a'' ''/out/a.wav'',
                  Progress 100, File_converted ''/y/a.m4a'' ''/out/a.wav'']\<rparr>)"
  by (simp add: loop_body_def Let_def disk_transcoder_def
        disk_with_two_def out_y percent_2_2')

subsection \<open>Runs and windows at small inputs\<close>

lemma out_a: "output_file_of ''/out'' ''a.m4a'' = ''/out/a.wav''"
  by code_simp

lemma out_b: "output_file_of ''/out'' ''b.m4a'' = ''/out/b.wav''"
  by code_simp

lemma out_c: "output_file_of ''/out'' ''c.m4a'' = ''/out/c.wav''"
  by code_simp

lemma percent_1_2: "percent (Suc 0) (Suc (Suc 0)) = 50"
  by code_simp

lemma percent_2_2: "percent (Suc (Suc 0)) (Suc (Suc 0)) = 100"
  by code_simp

lemma percent_1_3: "percent (Suc 0) (Suc (Suc (Suc 0))) = 33"
  by code_simp

lemma percent_2_3: "percent (Suc (Suc 0)) (Suc (Suc (Suc 0))) = 66"
  by code_simp

lemma is_m4a_a: "is_m4a ''a.m4a''"
  by code_simp

lemma is_m4a_b: "is_m4a ''b.m4a''"
  by code_simp

lemma basename_b: "basename ''b.m4a'' = ''b.m4a''"
  by code_simp

lemma run_a_b:
  "run plain_codec (new_run [''a.m4a'', ''b.m4a''] ''/out'' disk_with_a) =
     (Some MissingSource,
      \<lparr>self = \<lparr>input_files = [''a.m4a'', ''b.m4a''], output_dir = ''/out''\<rparr>,
       world = disk_with_a(''/out/a.wav'' \<mapsto> ''aac''),
       emitted = [Progress 50, File_converted ''a.m4a'' ''/out/a.wav'']\<rparr>)"
  by (simp add: run_def new_run_def loop_body_def Let_def plain_codec_def disk_transcoder_def
        disk_with_a_def out_a out_b percent_1_2)

lemma run_b_a:
  "run plain_codec (new_run [''b.m4a'', ''a.m4a''] ''/out'' disk_with_a) =
     (Some MissingSource, new_run [''b.m4a'', ''a.m4a''] ''/out'' disk_with_a)"
  by (simp add: run_def new_run_def loop_body_def Let_def plain_codec_def disk_transcoder_def
        disk_with_a_def out_a out_b)

lemma transcode_a:
  "transcode plain_codec disk_with_a ''a.m4a'' ''/out/a.wav''
     = (None, disk_with_a(''/out/a.wav'' \<mapsto> ''aac''))"
  by (simp add: transcode_def plain_codec_def disk_transcoder_def disk_with_a_def)

lemma transcode_b:
  "transcode plain_codec (disk_with_a(''/out/a.wav'' \<mapsto> ''aac'')) ''b.m4a'' ''/out/b.wav''
     = (Some MissingSource, disk_with_a(''/out/a.wav'' \<mapsto> ''aac''))"
  by (simp add: transcode_def plain_codec_def disk_transcoder_def disk_with_a_def)

lemma batch_a_of_2:
  "batch_signals ''/out'' (length [''a.m4a'', ''b.m4a'']) 0 (take 1 [''a.m4a'', ''b.m4a''])
     = [Progress 50, File_converted ''a.m4a'' ''/out/a.wav'']"
  by (simp add: job_signals_def out_a percent_1_2)

lemma last_percents:
  "0 < n \<Longrightarrow> last (map (\<lambda>j. percent j n) [1..<Suc n]) = 100"
  by (simp add: last_map percent_full)

lemma window_after_drop:
  "act_all [SelectOutputDir ''/out'', DropEvent [''a.m4a'', ''b.m4a'']] MainWindow_init =
     \<lparr>window_input_files = [''a.m4a'', ''b.m4a''], window_output_dir = ''/out'',
      converted_files = Map.empty,
      file_list = [\<lparr>item_label = ''a.m4a'', item_path = ''a.m4a'', item_converted = False\<rparr>,
                   \<lparr>item_label = ''b.m4a'', item_path = ''b.m4a'', item_converted = False\<rparr>],
      progress_bar = 0, status_label = ''Converting...'',
      output_dir_label = ''Output Directory: /out'',
      preview_label = ''No file selected for preview'',
      select_button_enabled = False, output_dir_button_enabled = False,
      media_source = None,
      window_conversion_thread
        = Some \<lparr>input_files = [''a.m4a'', ''b.m4a''], output_dir = ''/out''\<rparr>\<rparr>"
  by (simp add: act_all_def select_output_dir_def dropEvent_def start_conversion_def
        add_file_to_list_def MainWindow_init_def Let_def is_m4a_a is_m4a_b basename_a basename_b)

lemma transcode_all_a_c:
  "transcode_all plain_codec ''/out'' disk_with_a_c (take 2 [''a.m4a'', ''c.m4a'', ''b.m4a''])
     = Some (disk_with_a_c(''/out/a.wav'' \<mapsto> ''aac'', ''/out/c.wav'' \<mapsto> ''alac''))"
  by (simp add: numeral_2_eq_2 out_a out_c transcode_def plain_codec_def disk_transcoder_def
        disk_with_a_c_def)

lemma transcode_b_after_a_c:
  "fst (transcode plain_codec
          (disk_with_a_c(''/out/a.wav'' \<mapsto> ''aac'', ''/out/c.wav'' \<mapsto> ''alac''))
          ([''a.m4a'', ''c.m4a'', ''b.m4a''] ! 2)
          (output_file_of ''/out'' ([''a.m4a'', ''c.m4a'', ''b.m4a''] ! 2)))
     = Some MissingSource"
  by (simp add: transcode_def plain_codec_def disk_transcoder_def disk_with_a_c_def)

lemma busy_window:
  "act_all [SelectOutputDir ''/out'', DropEvent [''a.m4a'']] MainWindow_init =
     \<lparr>window_input_files = [''a.m4a''], window_output_dir = ''/out'',
      converted_files = Map.empty,
      file_list = [\<lparr>item_label = ''a.m4a'', item_path = ''a.m4a'', item_converted = False\<rparr>],
      progress_bar = 0, status_label = ''Converting...'',
      output_dir_label = ''Output Directory: /out'',
      preview_label = ''No file selected for preview'',
      select_button_enabled = False, output_dir_button_enabled = False,
      media_source = None,
      window_conversion_thread = Some \<lparr>input_files = [''a.m4a''], output_dir = ''/out''\<rparr>\<rparr>"
  by (simp add: act_all_def select_output_dir_def dropEvent_def start_conversion_def
        add_file_to_list_def MainWindow_init_def Let_def is_m4a_a basename_a)

lemma transcode_all_c_a:
  "transcode_all plain_codec ''/out'' disk_with_a_c (take 2 [''c.m4a'', ''a.m4a''])
     = Some (disk_with_a_c(''/out/c.wav'' \<mapsto> ''alac'', ''/out/a.wav'' \<mapsto> ''aac''))"
  by (simp add: out_a out_c transcode_def plain_codec_def disk_transcoder_def
        disk_with_a_c_def)

section \<open>The claims about the worker\<close>

text \<open>
  Claim C10. Running a batch leaves the submitted inputs unchanged: whether \<^verbatim>\<open>run\<close>
  returns or raises, the list of input files and the output directory of the thread are
  afterwards what they were before; the results of the worker are its signals (and what
  the library wrote).
\<close>

theorem run_leaves_thread_unchanged:
  "input_files (self (snd (run lib s))) = input_files (self s)
   \<and> output_dir (self (snd (run lib s))) = output_dir (self s)"
proof -
  obtain r s1 where l:
    "for_loop lib (length (input_files (self s))) 0 (input_files (self s)) s = (r, s1)"
    by (cases "for_loop lib (length (input_files (self s))) 0 (input_files (self s)) s")
  have "self s1 = self s"
    using for_loop_self[of lib "length (input_files (self s))" 0 "input_files (self s)" s] l
    by simp
  then have "self (snd (run lib s)) = self s"
    using l by (cases r) (simp_all add: run_def)
  then show ?thesis by simp
qed

text \<open>
  Claim C8 fails on the code. Through the window an empty submission starts no worker,
  so there is no event at all; and a thread that is started on an empty list delivers
  \<^verbatim>\<open>finished\<close> twice, once from \<^verbatim>\<open>run\<close> and once from Qt as the thread ends. In
  neither case is there exactly one \<open>BatchFinished\<close>.
\<close>

theorem empty_submission_counterexample:
  "map event_of (emitted (snd (thread_start plain_codec (new_run [] ''/out'' disk_with_a))))
     = [BatchFinished, BatchFinished]
   \<and> window_conversion_thread
       (act_all [SelectOutputDir ''/out'', DropEvent []] MainWindow_init) = None"
  by (simp add: thread_start_def run_def new_run_def act_all_def select_output_dir_def
        dropEvent_def MainWindow_init_def Let_def)

text \<open>
  Claim C8, as the code has it. An empty submission through the window, by a drop or
  by the file dialog, changes nothing and starts no worker: the guards of
  \<^verbatim>\<open>dropEvent\<close> and \<^verbatim>\<open>select_files\<close> come first. A thread on an empty list
  converts nothing and ends without an exception; it emits no \<^verbatim>\<open>progress\<close> and no
  \<^verbatim>\<open>file_converted\<close>, and nothing that stands for the start or the failure of a job.
  \<^verbatim>\<open>run\<close> itself emits \<^verbatim>\<open>finished\<close> exactly once; started, the thread delivers
  it a second time when it ends.
\<close>

theorem empty_submission_starts_nothing:
  "dropEvent [] win = win
   \<and> select_files [] win = win
   \<and> run lib (new_run [] dir w) = (None, (new_run [] dir w)\<lparr>emitted := [Finished]\<rparr>)
   \<and> thread_start lib (new_run [] dir w)
       = (None, (new_run [] dir w)\<lparr>emitted := [Finished, Finished]\<rparr>)
   \<and> progress_values (emitted (snd (thread_start lib (new_run [] dir w)))) = []
   \<and> converted_sources (emitted (snd (thread_start lib (new_run [] dir w)))) = []
   \<and> JobStarted p \<notin> set (map event_of (emitted (snd (thread_start lib (new_run [] dir w)))))
   \<and> JobFailed p e \<notin> set (map event_of (emitted (snd (thread_start lib (new_run [] dir w)))))"
  by (simp add: dropEvent_def select_files_def thread_start_def run_def new_run_def)

text \<open>
  Claim C4 fails on the code. There is no pending queue: a second submission does not
  append its job to the list of the first worker, it replaces the window's thread by a
  new one that holds the second submission only. And a job is not executed for every
  source path: when the first file of a batch is missing, the second, which the
  collaborator would convert, gets no signal.
\<close>

theorem no_pending_queue_counterexample:
  "window_conversion_thread
     (act_all [SelectOutputDir ''/out'', DropEvent [''a.m4a'']] MainWindow_init)
     = Some \<lparr>input_files = [''a.m4a''], output_dir = ''/out''\<rparr>
   \<and> window_conversion_thread
       (act_all [SelectOutputDir ''/out'', DropEvent [''a.m4a''], DropEvent [''b.m4a'']]
          MainWindow_init)
     = Some \<lparr>input_files = [''b.m4a''], output_dir = ''/out''\<rparr>
   \<and> fst (transcode plain_codec disk_with_a ''a.m4a'' ''/out/a.wav'') = None
   \<and> converted_sources (emitted (snd (thread_start plain_codec
         (new_run [''b.m4a'', ''a.m4a''] ''/out'' disk_with_a)))) = []"
proof -
  have "act_all [SelectOutputDir ''/out'', DropEvent [''a.m4a''], DropEvent [''b.m4a'']]
          MainWindow_init
        = dropEvent [''b.m4a'']
            (act_all [SelectOutputDir ''/out'', DropEvent [''a.m4a'']] MainWindow_init)"
    by (simp add: act_all_def)
  then show ?thesis
    unfolding busy_window thread_start_def run_b_a
    by (simp add: dropEvent_def start_conversion_def add_file_to_list_def Let_def is_m4a_b
          transcode_a new_run_def)
qed

text \<open>
  Claim C4, as the code has it. A submission constructs a thread whose list of jobs is
  exactly the submitted list of source paths, in input order. The worker takes the jobs
  strictly in that order, one after another, up to the first job on which the
  collaborator fails or to the end of the list: when the collaborator converts the first
  \<open>k\<close> files in turn and fails on file \<open>k\<close> (or \<open>k\<close> is the whole list), the signals
  are exactly those of files \<open>0, \<dots>, k - 1\<close> in this order. When every conversion
  succeeds these are all the submitted source paths, and the world is the one the
  collaborator leaves after converting them in turn.
\<close>

theorem worker_takes_jobs_in_list_order:
  assumes "k \<le> length files"
    and "transcode_all lib dir w (take k files) = Some wk"
    and "k < length files \<longrightarrow>
           fst (transcode lib wk (files ! k) (output_file_of dir (files ! k))) \<noteq> None"
  shows "window_conversion_thread (start_conversion files win)
           = Some \<lparr>input_files = files, output_dir = window_output_dir win\<rparr>
         \<and> emitted (snd (run lib (new_run files dir w)))
             = batch_signals dir (length files) 0 (take k files)
               @ (if k = length files then [Finished] else [])
         \<and> converted_sources (emitted (snd (thread_start lib (new_run files dir w))))
             = take k files
         \<and> (k = length files \<longrightarrow>
              fst (thread_start lib (new_run files dir w)) = None
              \<and> world (snd (thread_start lib (new_run files dir w))) = wk
              \<and> converted_sources (emitted (snd (thread_start lib (new_run files dir w))))
                  = files)"
proof -
  have r: "emitted (snd (run lib (new_run files dir w)))
             = batch_signals dir (length files) 0 (take k files)
               @ (if k = length files then [Finished] else [])"
    unfolding run_outcome[OF assms] by simp
  have c: "converted_sources (emitted (snd (thread_start lib (new_run files dir w))))
             = take k files"
    unfolding thread_start_outcome[OF assms]
    by (simp add: converted_sources_append converted_sources_batch)
  have a: "k = length files \<longrightarrow>
             fst (thread_start lib (new_run files dir w)) = None
             \<and> world (snd (thread_start lib (new_run files dir w))) = wk
             \<and> converted_sources (emitted (snd (thread_start lib (new_run files dir w))))
                 = files"
    unfolding thread_start_outcome[OF assms]
    by (simp add: converted_sources_append converted_sources_batch)
  have s: "window_conversion_thread (start_conversion files win)
             = Some \<lparr>input_files = files, output_dir = window_output_dir win\<rparr>"
    by (simp add: start_conversion_def Let_def)
  from s r c a show ?thesis by blast
qed

text \<open>
  The claim at the batch \<^verbatim>\<open>c.m4a\<close>, \<^verbatim>\<open>a.m4a\<close> on a disk that holds both: the
  signals come in the order of the submission.
\<close>

theorem worker_takes_jobs_in_list_order_witness:
  "(2::nat) \<le> length [''c.m4a'', ''a.m4a'']
   \<and> transcode_all plain_codec ''/out'' disk_with_a_c (take 2 [''c.m4a'', ''a.m4a''])
       = Some (disk_with_a_c(''/out/c.wav'' \<mapsto> ''alac'', ''/out/a.wav'' \<mapsto> ''aac''))
   \<and> window_conversion_thread (start_conversion [''c.m4a'', ''a.m4a''] (select_output_dir ''/out'' MainWindow_init))
       = Some \<lparr>input_files = [''c.m4a'', ''a.m4a''], output_dir = ''/out''\<rparr>
   \<and> emitted (snd (run plain_codec (new_run [''c.m4a'', ''a.m4a''] ''/out'' disk_with_a_c)))
       = [Progress 50, File_converted ''c.m4a'' ''/out/c.wav'',
          Progress 100, File_converted ''a.m4a'' ''/out/a.wav'', Finished]
   \<and> converted_sources (emitted (snd (thread_start plain_codec
         (new_run [''c.m4a'', ''a.m4a''] ''/out'' disk_with_a_c)))) = [''c.m4a'', ''a.m4a'']
   \<and> fst (thread_start plain_codec (new_run [''c.m4a'', ''a.m4a''] ''/out'' disk_with_a_c))
       = None"
proof -
  have p1: "(2::nat) \<le> length [''c.m4a'', ''a.m4a'']" by simp
  have p3: "2 < length [''c.m4a'', ''a.m4a''] \<longrightarrow>
              fst (transcode plain_codec
                (disk_with_a_c(''/out/c.wav'' \<mapsto> ''alac'', ''/out/a.wav'' \<mapsto> ''aac''))
                ([''c.m4a'', ''a.m4a''] ! 2)
                (output_file_of ''/out'' ([''c.m4a'', ''a.m4a''] ! 2))) \<noteq> None"
    by simp
  have b: "batch_signals ''/out'' (length [''c.m4a'', ''a.m4a'']) 0 (take 2 [''c.m4a'', ''a.m4a''])
             = [Progress 50, File_converted ''c.m4a'' ''/out/c.wav'',
                Progress 100, File_converted ''a.m4a'' ''/out/a.wav'']"
    by (simp add: job_signals_def out_a out_c percent_1_2 percent_2_2)
  from worker_takes_jobs_in_list_order[OF p1 transcode_all_c_a p3,
         of "select_output_dir ''/out'' MainWindow_init"]
  have "window_conversion_thread (start_conversion [''c.m4a'', ''a.m4a''] (select_output_dir ''/out'' MainWindow_init))
          = Some \<lparr>input_files = [''c.m4a'', ''a.m4a''], output_dir = ''/out''\<rparr>
        \<and> emitted (snd (run plain_codec (new_run [''c.m4a'', ''a.m4a''] ''/out'' disk_with_a_c)))
          = [Progress 50, File_converted ''c.m4a'' ''/out/c.wav'',
             Progress 100, File_converted ''a.m4a'' ''/out/a.wav'', Finished]
        \<and> converted_sources (emitted (snd (thread_start plain_codec
             (new_run [''c.m4a'', ''a.m4a''] ''/out'' disk_with_a_c)))) = [''c.m4a'', ''a.m4a'']
        \<and> fst (thread_start plain_codec (new_run [''c.m4a'', ''a.m4a''] ''/out'' disk_with_a_c))
          = None"
    unfolding b by (simp add: select_output_dir_def MainWindow_init_def Let_def)
  with p1 transcode_all_c_a show ?thesis by blast
qed

text \<open>
  Claim C1 fails on the code: \<^verbatim>\<open>run\<close> has no exception handler and the class has no
  signal for a failure. When the first file of a batch is missing, the exception of the
  library ends \<^verbatim>\<open>run\<close>; no event names the failed job, and the second file, which
  exists, is never converted.
\<close>

theorem failure_escapes_worker_counterexample:
  "fst (thread_start plain_codec (new_run [''b.m4a'', ''a.m4a''] ''/out'' disk_with_a))
     = Some MissingSource
   \<and> map event_of (emitted (snd (thread_start plain_codec
         (new_run [''b.m4a'', ''a.m4a''] ''/out'' disk_with_a)))) = [BatchFinished]
   \<and> world (snd (thread_start plain_codec (new_run [''b.m4a'', ''a.m4a''] ''/out'' disk_with_a)))
         ''/out/a.wav'' = None"
  unfolding thread_start_def run_b_a by (simp add: new_run_def disk_with_a_def)

text \<open>
  Claim C1, as the code has it. When the collaborator converts the first \<open>k\<close> files
  of a batch in turn and fails with \<open>e\<close> on file \<open>k\<close>, in \<^verbatim>\<open>from_file\<close> or in
  \<^verbatim>\<open>export\<close>, the failure is not caught: \<^verbatim>\<open>run\<close> ends with \<open>e\<close>, in the world
  as the failing call left it, so no later job is attempted. The \<^verbatim>\<open>progress\<close> and
  \<^verbatim>\<open>file_converted\<close> signals are exactly those of the \<open>k\<close> jobs before it, and no
  event for the failure of the job is emitted.
\<close>

theorem collaborator_failure_leaves_run:
  assumes "k < length files"
    and "transcode_all lib dir w (take k files) = Some wk"
    and "transcode lib wk (files ! k) (output_file_of dir (files ! k)) = (Some e, w')"
  shows "run lib (new_run files dir w) =
           (Some e,
            \<lparr>self = \<lparr>input_files = files, output_dir = dir\<rparr>, world = w',
             emitted = batch_signals dir (length files) 0 (take k files)\<rparr>)
         \<and> thread_start lib (new_run files dir w) =
           (Some e,
            \<lparr>self = \<lparr>input_files = files, output_dir = dir\<rparr>, world = w',
             emitted = batch_signals dir (length files) 0 (take k files) @ [Finished]\<rparr>)
         \<and> converted_sources (emitted (snd (thread_start lib (new_run files dir w))))
             = take k files
         \<and> JobFailed (files ! k) e
             \<notin> set (map event_of (emitted (snd (thread_start lib (new_run files dir w)))))"
proof -
  have k: "k \<le> length files" and ne: "k \<noteq> length files" using assms(1) by simp_all
  have f: "k < length files \<longrightarrow>
             fst (transcode lib wk (files ! k) (output_file_of dir (files ! k))) \<noteq> None"
    using assms(3) by simp
  have r: "run lib (new_run files dir w) =
             (Some e,
              \<lparr>self = \<lparr>input_files = files, output_dir = dir\<rparr>, world = w',
               emitted = batch_signals dir (length files) 0 (take k files)\<rparr>)"
    using run_outcome[OF k assms(2) f] ne assms(3) by simp
  have t: "thread_start lib (new_run files dir w) =
             (Some e,
              \<lparr>self = \<lparr>input_files = files, output_dir = dir\<rparr>, world = w',
               emitted = batch_signals dir (length files) 0 (take k files) @ [Finished]\<rparr>)"
    using thread_start_outcome[OF k assms(2) f] ne assms(3) by simp
  have c: "converted_sources (emitted (snd (thread_start lib (new_run files dir w))))
             = take k files"
    unfolding t by (simp add: converted_sources_append converted_sources_batch)
  from r t c event_of_not_failed show ?thesis by blast
qed

text \<open>The claim at the batch \<^verbatim>\<open>a.m4a\<close>, \<^verbatim>\<open>b.m4a\<close>, of which the second is missing.\<close>

theorem collaborator_failure_leaves_run_witness:
  "1 < length [''a.m4a'', ''b.m4a'']
   \<and> transcode_all plain_codec ''/out'' disk_with_a (take 1 [''a.m4a'', ''b.m4a''])
       = Some (disk_with_a(''/out/a.wav'' \<mapsto> ''aac''))
   \<and> transcode plain_codec (disk_with_a(''/out/a.wav'' \<mapsto> ''aac''))
         ([''a.m4a'', ''b.m4a''] ! 1) (output_file_of ''/out'' ([''a.m4a'', ''b.m4a''] ! 1))
       = (Some MissingSource, disk_with_a(''/out/a.wav'' \<mapsto> ''aac''))
   \<and> thread_start plain_codec (new_run [''a.m4a'', ''b.m4a''] ''/out'' disk_with_a) =
       (Some MissingSource,
        \<lparr>self = \<lparr>input_files = [''a.m4a'', ''b.m4a''], output_dir = ''/out''\<rparr>,
         world = disk_with_a(''/out/a.wav'' \<mapsto> ''aac''),
         emitted = [Progress 50, File_converted ''a.m4a'' ''/out/a.wav'', Finished]\<rparr>)"
proof -
  have p1: "1 < length [''a.m4a'', ''b.m4a'']" by simp
  have p2: "transcode_all plain_codec ''/out'' disk_with_a (take 1 [''a.m4a'', ''b.m4a''])
              = Some (disk_with_a(''/out/a.wav'' \<mapsto> ''aac''))"
    by (simp add: out_a transcode_a)
  have p3: "transcode plain_codec (disk_with_a(''/out/a.wav'' \<mapsto> ''aac''))
              ([''a.m4a'', ''b.m4a''] ! 1) (output_file_of ''/out'' ([''a.m4a'', ''b.m4a''] ! 1))
            = (Some MissingSource, disk_with_a(''/out/a.wav'' \<mapsto> ''aac''))"
    by (simp add: out_b transcode_b)
  from collaborator_failure_leaves_run[OF p1 p2 p3] p1 p2 p3 show ?thesis
    unfolding batch_a_of_2 by simp
qed

text \<open>
  Claim C3 fails on the code: a progress signal follows a job only when the job
  converts. In the batch \<^verbatim>\<open>a.m4a\<close>, \<^verbatim>\<open>b.m4a\<close> with the second file missing, one
  progress signal is emitted for two jobs, and its value is 50: the batch never reaches
  its total.
\<close>

theorem progress_stops_at_failure_counterexample:
  "progress_values (emitted (snd (run plain_codec
      (new_run [''a.m4a'', ''b.m4a''] ''/out'' disk_with_a)))) = [50]
   \<and> length (progress_values (emitted (snd (run plain_codec
      (new_run [''a.m4a'', ''b.m4a''] ''/out'' disk_with_a)))))
     \<noteq> length [''a.m4a'', ''b.m4a'']"
  unfolding run_a_b by simp

text \<open>
  Claim C3, as the code has it. A progress signal is emitted for every job that
  converts before the first failure and for no other: when the collaborator converts
  the first \<open>k\<close> files in turn and fails on file \<open>k\<close> (or \<open>k\<close> is the whole batch),
  the progress values are \<^verbatim>\<open>int(j / total * 100)\<close> for the completed counts
  \<open>j = 1, \<dots>, k\<close>, each once and in this order, and there is none for the failing job
  or a later one. The values never decrease, also under the rounding of the
  floating-point division and product. When no job fails, the completed count reaches the
  total with the last progress signal of a batch that is not empty, and its value is 100.
  In a batch of at most \<open>2\<^sup>5\<^sup>3\<close> files no other signal has the value 100: it is emitted
  once when the batch completes and never when a job fails.
\<close>

theorem progress_follows_converted_jobs:
  assumes "k \<le> length files"
    and "transcode_all lib dir w (take k files) = Some wk"
    and "k < length files \<longrightarrow>
           fst (transcode lib wk (files ! k) (output_file_of dir (files ! k))) \<noteq> None"
  shows "progress_values (emitted (snd (thread_start lib (new_run files dir w))))
           = map (\<lambda>j. percent j (length files)) [1..<Suc k]
         \<and> sorted (progress_values (emitted (snd (thread_start lib (new_run files dir w)))))
         \<and> (k = length files \<and> files \<noteq> [] \<longrightarrow>
              last (progress_values (emitted (snd (thread_start lib (new_run files dir w)))))
                = 100)
         \<and> (length files \<le> 2 ^ 53 \<longrightarrow>
              count_list
                (progress_values (emitted (snd (thread_start lib (new_run files dir w))))) 100
                = (if k = length files \<and> files \<noteq> [] then 1 else 0))"
proof -
  have e: "emitted (snd (thread_start lib (new_run files dir w)))
             = batch_signals dir (length files) 0 (take k files)
               @ (if k = length files then [Finished, Finished] else [Finished])"
    unfolding thread_start_outcome[OF assms] by simp
  have p: "progress_values (emitted (snd (thread_start lib (new_run files dir w))))
             = map (\<lambda>j. percent j (length files)) [1..<Suc k]"
    using assms(1) by (simp add: e progress_values_append progress_values_batch min_def)
  have s: "sorted (progress_values (emitted (snd (thread_start lib (new_run files dir w)))))"
    unfolding p by (rule sorted_percents)
  have l: "k = length files \<and> files \<noteq> [] \<longrightarrow>
             last (progress_values (emitted (snd (thread_start lib (new_run files dir w)))))
               = 100"
  proof
    assume a: "k = length files \<and> files \<noteq> []"
    then have "last (map (\<lambda>j. percent j (length files)) [1..<Suc (length files)]) = 100"
      using last_percents[of "length files"] by blast
    with a show "last (progress_values (emitted (snd (thread_start lib (new_run files dir w)))))
                   = 100"
      unfolding p by (simp only:)
  qed
  have c: "length files \<le> 2 ^ 53 \<longrightarrow>
             count_list
               (progress_values (emitted (snd (thread_start lib (new_run files dir w))))) 100
               = (if k = length files \<and> files \<noteq> [] then 1 else 0)"
  proof
    assume "length files \<le> 2 ^ 53"
    from count_full_percent[OF assms(1) this]
    show "count_list
            (progress_values (emitted (snd (thread_start lib (new_run files dir w))))) 100
            = (if k = length files \<and> files \<noteq> [] then 1 else 0)"
      unfolding p by auto
  qed
  from p s l c show ?thesis by blast
qed

text \<open>
  The claim at the batch \<^verbatim>\<open>a.m4a\<close>, \<^verbatim>\<open>c.m4a\<close>, \<^verbatim>\<open>b.m4a\<close> on a disk without
  \<^verbatim>\<open>b.m4a\<close>: two jobs convert, the third fails, and the values are 33 and 66.
\<close>

theorem progress_follows_converted_jobs_witness:
  "(2::nat) \<le> length [''a.m4a'', ''c.m4a'', ''b.m4a'']
   \<and> transcode_all plain_codec ''/out'' disk_with_a_c (take 2 [''a.m4a'', ''c.m4a'', ''b.m4a''])
       = Some (disk_with_a_c(''/out/a.wav'' \<mapsto> ''aac'', ''/out/c.wav'' \<mapsto> ''alac''))
   \<and> fst (transcode plain_codec
            (disk_with_a_c(''/out/a.wav'' \<mapsto> ''aac'', ''/out/c.wav'' \<mapsto> ''alac''))
            ([''a.m4a'', ''c.m4a'', ''b.m4a''] ! 2)
            (output_file_of ''/out'' ([''a.m4a'', ''c.m4a'', ''b.m4a''] ! 2)))
       = Some MissingSource
   \<and> progress_values (emitted (snd (thread_start plain_codec
         (new_run [''a.m4a'', ''c.m4a'', ''b.m4a''] ''/out'' disk_with_a_c)))) = [33, 66]
   \<and> sorted (progress_values (emitted (snd (thread_start plain_codec
         (new_run [''a.m4a'', ''c.m4a'', ''b.m4a''] ''/out'' disk_with_a_c)))))
   \<and> count_list (progress_values (emitted (snd (thread_start plain_codec
         (new_run [''a.m4a'', ''c.m4a'', ''b.m4a''] ''/out'' disk_with_a_c))))) 100 = 0"
proof -
  have p1: "(2::nat) \<le> length [''a.m4a'', ''c.m4a'', ''b.m4a'']" by simp
  have p3: "2 < length [''a.m4a'', ''c.m4a'', ''b.m4a''] \<longrightarrow>
              fst (transcode plain_codec
                (disk_with_a_c(''/out/a.wav'' \<mapsto> ''aac'', ''/out/c.wav'' \<mapsto> ''alac''))
                ([''a.m4a'', ''c.m4a'', ''b.m4a''] ! 2)
                (output_file_of ''/out'' ([''a.m4a'', ''c.m4a'', ''b.m4a''] ! 2))) \<noteq> None"
    using transcode_b_after_a_c by simp
  have m: "map (\<lambda>j. percent j (length [''a.m4a'', ''c.m4a'', ''b.m4a''])) [1..<Suc 2] = [33, 66]"
    by (simp add: upt_rec percent_1_3 percent_2_3 numeral_2_eq_2)
  have n: "length [''a.m4a'', ''c.m4a'', ''b.m4a''] \<le> 2 ^ 53" by simp
  from progress_follows_converted_jobs[OF p1 transcode_all_a_c p3] m n
  have "progress_values (emitted (snd (thread_start plain_codec
           (new_run [''a.m4a'', ''c.m4a'', ''b.m4a''] ''/out'' disk_with_a_c)))) = [33, 66]
        \<and> sorted (progress_values (emitted (snd (thread_start plain_codec
           (new_run [''a.m4a'', ''c.m4a'', ''b.m4a''] ''/out'' disk_with_a_c)))))
        \<and> count_list (progress_values (emitted (snd (thread_start plain_codec
           (new_run [''a.m4a'', ''c.m4a'', ''b.m4a''] ''/out'' disk_with_a_c))))) 100 = 0"
    by simp
  with p1 transcode_all_a_c transcode_b_after_a_c show ?thesis by blast
qed

text \<open>
  Claim C2 fails on the code. In the scenario of the specification the observers get
  three events, not seven: the progress of \<^verbatim>\<open>a.m4a\<close>, then its \<^verbatim>\<open>file_converted\<close>,
  then \<^verbatim>\<open>finished\<close>. Nothing announces the start of a job, the progress of a job comes
  before its \<^verbatim>\<open>file_converted\<close>, and the missing \<^verbatim>\<open>b.m4a\<close> gets neither a failure
  event nor a progress.
\<close>

theorem scenario_events_counterexample:
  "map event_of (emitted (snd (thread_start plain_codec
      (new_run [''a.m4a'', ''b.m4a''] ''/out'' disk_with_a))))
   \<noteq> spec_scenario_events"
  unfolding thread_start_def run_a_b by (simp add: spec_scenario_events_def)

text \<open>
  Claim C2, as the code has it. For the batch \<^verbatim>\<open>a.m4a\<close>, \<^verbatim>\<open>b.m4a\<close> with output
  directory \<^verbatim>\<open>/out\<close>, where \<^verbatim>\<open>a.m4a\<close> converts and \<^verbatim>\<open>b.m4a\<close> does not exist,
  the started worker emits exactly \<^verbatim>\<open>progress(50)\<close>,
  \<^verbatim>\<open>file_converted(a.m4a, /out/a.wav)\<close> and, as the thread ends with the exception for
  the missing source, \<^verbatim>\<open>finished\<close>. Once the window that submitted the batch has
  handled these signals, \<^verbatim>\<open>converted_files\<close> holds the one entry from \<^verbatim>\<open>a.m4a\<close> to
  \<^verbatim>\<open>/out/a.wav\<close>, and the window reports the conversion as complete. This holds for
  every library that behaves so on the two files.
\<close>

theorem scenario_second_file_missing:
  assumes "from_file lib w ''a.m4a'' = Inr audio"
    and "export lib w audio ''/out/a.wav'' = (None, w1)"
    and "from_file lib w1 ''b.m4a'' = Inl MissingSource"
  shows "thread_start lib (new_run [''a.m4a'', ''b.m4a''] ''/out'' w) =
           (Some MissingSource,
            \<lparr>self = \<lparr>input_files = [''a.m4a'', ''b.m4a''], output_dir = ''/out''\<rparr>,
             world = w1,
             emitted = [Progress 50, File_converted ''a.m4a'' ''/out/a.wav'', Finished]\<rparr>)
         \<and> map event_of (emitted (snd (thread_start lib
                 (new_run [''a.m4a'', ''b.m4a''] ''/out'' w))))
             = [BatchProgress 50, JobSucceeded ''a.m4a'' ''/out/a.wav'', BatchFinished]
         \<and> converted_files
              (deliver_all
                 (emitted (snd (thread_start lib (new_run [''a.m4a'', ''b.m4a''] ''/out'' w))))
                 (act_all [SelectOutputDir ''/out'', DropEvent [''a.m4a'', ''b.m4a'']]
                    MainWindow_init))
             = [''a.m4a'' \<mapsto> ''/out/a.wav'']
         \<and> status_label
              (deliver_all
                 (emitted (snd (thread_start lib (new_run [''a.m4a'', ''b.m4a''] ''/out'' w))))
                 (act_all [SelectOutputDir ''/out'', DropEvent [''a.m4a'', ''b.m4a'']]
                    MainWindow_init))
             = ''Conversion complete!''"
proof -
  have r: "thread_start lib (new_run [''a.m4a'', ''b.m4a''] ''/out'' w) =
     (Some MissingSource,
      \<lparr>self = \<lparr>input_files = [''a.m4a'', ''b.m4a''], output_dir = ''/out''\<rparr>,
       world = w1,
       emitted = [Progress 50, File_converted ''a.m4a'' ''/out/a.wav'', Finished]\<rparr>)"
    using assms
    by (simp add: thread_start_def run_def new_run_def loop_body_def Let_def out_a out_b
          percent_1_2)
  show ?thesis
    unfolding r window_after_drop
    by (simp add: deliver_all_def file_converted_def load_media_def update_progress_def
          conversion_finished_def)
qed

text \<open>The scenario with the library over a disk that holds \<^verbatim>\<open>a.m4a\<close> only.\<close>

theorem scenario_second_file_missing_witness:
  "from_file plain_codec disk_with_a ''a.m4a'' = Inr ''aac''
   \<and> export plain_codec disk_with_a ''aac'' ''/out/a.wav''
       = (None, disk_with_a(''/out/a.wav'' \<mapsto> ''aac''))
   \<and> from_file plain_codec (disk_with_a(''/out/a.wav'' \<mapsto> ''aac'')) ''b.m4a''
       = Inl MissingSource
   \<and> thread_start plain_codec (new_run [''a.m4a'', ''b.m4a''] ''/out'' disk_with_a) =
       (Some MissingSource,
        \<lparr>self = \<lparr>input_files = [''a.m4a'', ''b.m4a''], output_dir = ''/out''\<rparr>,
         world = disk_with_a(''/out/a.wav'' \<mapsto> ''aac''),
         emitted = [Progress 50, File_converted ''a.m4a'' ''/out/a.wav'', Finished]\<rparr>)
   \<and> converted_files
        (deliver_all
           (emitted (snd (thread_start plain_codec
              (new_run [''a.m4a'', ''b.m4a''] ''/out'' disk_with_a))))
           (act_all [SelectOutputDir ''/out'', DropEvent [''a.m4a'', ''b.m4a'']] MainWindow_init))
       = [''a.m4a'' \<mapsto> ''/out/a.wav'']"
proof -
  have p1: "from_file plain_codec disk_with_a ''a.m4a'' = Inr ''aac''"
    by (simp add: plain_codec_def disk_transcoder_def disk_with_a_def)
  have p2: "export plain_codec disk_with_a ''aac'' ''/out/a.wav''
              = (None, disk_with_a(''/out/a.wav'' \<mapsto> ''aac''))"
    by (simp add: plain_codec_def disk_transcoder_def)
  have p3: "from_file plain_codec (disk_with_a(''/out/a.wav'' \<mapsto> ''aac'')) ''b.m4a''
              = Inl MissingSource"
    by (simp add: plain_codec_def disk_transcoder_def disk_with_a_def)
  from scenario_second_file_missing[OF p1 p2 p3] p1 p2 p3 show ?thesis by blast
qed

section \<open>The claims about the window and the files\<close>

text \<open>
  Claim C6 fails on the code as it is stated: the entry of a converted source does not
  only change when the source is converted again. \<^verbatim>\<open>remove_selected_file\<close> deletes
  it, and a lookup after that finds nothing.
\<close>

theorem removed_entry_counterexample:
  "converted_files
     (file_converted ''a.m4a'' ''/out/a.wav'' (add_file_to_list ''a.m4a'' MainWindow_init))
     ''a.m4a'' = Some ''/out/a.wav''
   \<and> converted_files
        (act_all [RemoveSelected 0]
           (file_converted ''a.m4a'' ''/out/a.wav'' (add_file_to_list ''a.m4a'' MainWindow_init)))
        ''a.m4a'' = None"
  by (simp add: act_all_def remove_selected_file_def file_converted_def load_media_def
        add_file_to_list_def MainWindow_init_def Let_def basename_a)

text \<open>
  Claim C6, as the code has it. When \<^verbatim>\<open>file_converted\<close> arrives for a source, its
  entry in \<^verbatim>\<open>converted_files\<close> is set to the converted file of that job, whatever
  the entry was before. The entry stays so through everything that then happens to the
  window, until \<^verbatim>\<open>file_converted\<close> arrives again for the same source or a list entry
  with that source is removed; a click on a list entry with the source previews exactly
  that file.
\<close>

theorem cache_entry_persists:
  assumes "entry_untouched original_file (file_converted original_file converted_file w) actions"
  shows "converted_files (file_converted original_file converted_file w) original_file
           = Some converted_file
         \<and> converted_files
              (act_all actions (file_converted original_file converted_file w)) original_file
           = Some converted_file
         \<and> (row < length (file_list
                (act_all actions (file_converted original_file converted_file w)))
             \<and> item_path (file_list
                (act_all actions (file_converted original_file converted_file w)) ! row)
                 = original_file
             \<longrightarrow> media_source (preview_converted_file row
                   (act_all actions (file_converted original_file converted_file w)))
                 = Some converted_file)"
proof -
  have e: "converted_files
             (act_all actions (file_converted original_file converted_file w)) original_file
           = Some converted_file"
    using act_all_keeps_entry[OF assms] file_converted_entry by simp
  then show ?thesis
    by (simp add: file_converted_entry preview_converted_file_def Let_def load_media_def)
qed

text \<open>The claim at a window that lists \<^verbatim>\<open>a.m4a\<close>, followed by the end of the batch and a click.\<close>

theorem cache_entry_persists_witness:
  "entry_untouched ''a.m4a''
     (file_converted ''a.m4a'' ''/out/a.wav'' (add_file_to_list ''a.m4a'' MainWindow_init))
     [Arrives Finished, PreviewItem 0]
   \<and> converted_files
        (act_all [Arrives Finished, PreviewItem 0]
           (file_converted ''a.m4a'' ''/out/a.wav'' (add_file_to_list ''a.m4a'' MainWindow_init)))
        ''a.m4a'' = Some ''/out/a.wav''"
proof -
  have u: "entry_untouched ''a.m4a''
     (file_converted ''a.m4a'' ''/out/a.wav'' (add_file_to_list ''a.m4a'' MainWindow_init))
     [Arrives Finished, PreviewItem 0]"
    by simp
  from cache_entry_persists[OF u] u show ?thesis by blast
qed

text \<open>
  Claim C7 is not what the code does. The window is converting \<^verbatim>\<open>a.m4a\<close>: its select
  button is disabled, its status is \<^verbatim>\<open>Converting...\<close>, and no \<^verbatim>\<open>finished\<close> has
  arrived. A reconversion of the list entry, or a drop of \<^verbatim>\<open>b.m4a\<close>, constructs and
  starts a second thread and stores it in the attribute that held the first: the list
  of the first worker is not extended, and the only reference to it is dropped while it
  runs. The two buttons are disabled while a worker converts; the drop and the context
  menu are not.
\<close>

theorem submission_while_converting_replaces_worker:
  "select_button_enabled
     (act_all [SelectOutputDir ''/out'', DropEvent [''a.m4a'']] MainWindow_init) = False
   \<and> status_label
       (act_all [SelectOutputDir ''/out'', DropEvent [''a.m4a'']] MainWindow_init)
     = ''Converting...''
   \<and> window_conversion_thread
       (act_all [SelectOutputDir ''/out'', DropEvent [''a.m4a'']] MainWindow_init)
     = Some \<lparr>input_files = [''a.m4a''], output_dir = ''/out''\<rparr>
   \<and> window_conversion_thread
       (act_all [SelectOutputDir ''/out'', DropEvent [''a.m4a''], ReconvertSelected 0]
          MainWindow_init)
     = Some \<lparr>input_files = [''a.m4a''], output_dir = ''/out''\<rparr>
   \<and> window_conversion_thread
       (act_all [SelectOutputDir ''/out'', DropEvent [''a.m4a''], DropEvent [''b.m4a'']]
          MainWindow_init)
     = Some \<lparr>input_files = [''b.m4a''], output_dir = ''/out''\<rparr>"
proof -
  have d: "act_all [SelectOutputDir ''/out'', DropEvent [''a.m4a''], DropEvent [''b.m4a'']]
          MainWindow_init
        = dropEvent [''b.m4a'']
            (act_all [SelectOutputDir ''/out'', DropEvent [''a.m4a'']] MainWindow_init)"
    by (simp add: act_all_def)
  have r: "act_all [SelectOutputDir ''/out'', DropEvent [''a.m4a''], ReconvertSelected 0]
          MainWindow_init
        = reconvert_selected_file 0
            (act_all [SelectOutputDir ''/out'', DropEvent [''a.m4a'']] MainWindow_init)"
    by (simp add: act_all_def)
  show ?thesis
    unfolding d r busy_window
    by (simp add: dropEvent_def reconvert_selected_file_def start_conversion_def
          add_file_to_list_def Let_def is_m4a_b)
qed

text \<open>
  Claim C9 fails on the code as it is stated: the output path depends on the output
  directory of the batch too, and two batches may have different ones.
\<close>

theorem different_directories_counterexample:
  "''/x/a.m4a'' \<noteq> ''/y/a.m4a''
   \<and> basename ''/x/a.m4a'' = basename ''/y/a.m4a''
   \<and> output_file_of ''/out1'' ''/x/a.m4a'' \<noteq> output_file_of ''/out2'' ''/y/a.m4a''"
  by code_simp

text \<open>
  Claim C9, as the code has it. Two source paths with the same base name that are
  converted into the same output directory, in one batch or in two, get the same output
  path. When both conversions succeed (with the library over a disk), the first job has
  written its audio at that path and the second replaces whatever the path holds by its
  own; each job emits its \<^verbatim>\<open>file_converted\<close> with that path, and once the window has
  handled the signals of both jobs, \<^verbatim>\<open>converted_files\<close> maps both sources to it.
\<close>

theorem same_base_name_same_destination:
  assumes "basename s1 = basename s2"
    and "output_dir (self st1) = dir" and "output_dir (self st2) = dir"
    and "loop_body (disk_transcoder decode encode) n1 i1 s1 st1 = (None, st1')"
    and "loop_body (disk_transcoder decode encode) n2 i2 s2 st2 = (None, st2')"
  shows "output_file_of dir s1 = output_file_of dir s2
         \<and> (\<exists>c1 a1. world st1 s1 = Some c1 \<and> decode c1 = Inr a1
               \<and> world st1' (output_file_of dir s1) = Some (encode a1))
         \<and> (\<exists>c2 a2. world st2 s2 = Some c2 \<and> decode c2 = Inr a2
               \<and> world st2' = (world st2)(output_file_of dir s1 \<mapsto> encode a2))
         \<and> converted_files
              (deliver_all (job_signals dir n1 i1 s1 @ job_signals dir n2 i2 s2) w) s1
             = Some (output_file_of dir s1)
         \<and> converted_files
              (deliver_all (job_signals dir n1 i1 s1 @ job_signals dir n2 i2 s2) w) s2
             = Some (output_file_of dir s1)
         \<and> emitted st1' = emitted st1 @ job_signals dir n1 i1 s1
         \<and> emitted st2' = emitted st2 @ job_signals dir n2 i2 s2"
proof -
  have o: "output_file_of dir s1 = output_file_of dir s2"
    using assms(1) by (rule same_basename_same_output)
  from loop_body_disk_return[OF assms(4)] assms(2)
  obtain c1 a1 where j1: "world st1 s1 = Some c1" "decode c1 = Inr a1"
    "world st1' = (world st1)(output_file_of dir s1 \<mapsto> encode a1)"
    "emitted st1' = emitted st1 @ job_signals dir n1 i1 s1" by auto
  from loop_body_disk_return[OF assms(5)] assms(3) o
  obtain c2 a2 where j2: "world st2 s2 = Some c2" "decode c2 = Inr a2"
    "world st2' = (world st2)(output_file_of dir s1 \<mapsto> encode a2)"
    "emitted st2' = emitted st2 @ job_signals dir n2 i2 s2" by auto
  have w1: "\<exists>c1 a1. world st1 s1 = Some c1 \<and> decode c1 = Inr a1
              \<and> world st1' (output_file_of dir s1) = Some (encode a1)"
    using j1(1,2,3) by auto
  have c: "converted_files
             (deliver_all (job_signals dir n1 i1 s1 @ job_signals dir n2 i2 s2) w)
           = (converted_files w)(s1 \<mapsto> output_file_of dir s1, s2 \<mapsto> output_file_of dir s1)"
    by (simp add: deliver_all_append deliver_job_signals o)
  have c1: "converted_files
              (deliver_all (job_signals dir n1 i1 s1 @ job_signals dir n2 i2 s2) w) s1
            = Some (output_file_of dir s1)"
    unfolding c by simp
  have c2: "converted_files
              (deliver_all (job_signals dir n1 i1 s1 @ job_signals dir n2 i2 s2) w) s2
            = Some (output_file_of dir s1)"
    unfolding c by simp
  from o w1 j2 c1 c2 j1(4) show ?thesis by blast
qed

text \<open>The claim at \<^verbatim>\<open>/x/a.m4a\<close> and \<^verbatim>\<open>/y/a.m4a\<close>, one batch into \<^verbatim>\<open>/out\<close>.\<close>

theorem same_base_name_same_destination_witness:
  "basename ''/x/a.m4a'' = basename ''/y/a.m4a''
   \<and> output_file_of ''/out'' ''/x/a.m4a'' = output_file_of ''/out'' ''/y/a.m4a''
   \<and> converted_files
        (deliver_all (job_signals ''/out'' 2 0 ''/x/a.m4a'' @ job_signals ''/out'' 2 1 ''/y/a.m4a'')
           MainWindow_init) ''/x/a.m4a'' = Some ''/out/a.wav''
   \<and> converted_files
        (deliver_all (job_signals ''/out'' 2 0 ''/x/a.m4a'' @ job_signals ''/out'' 2 1 ''/y/a.m4a'')
           MainWindow_init) ''/y/a.m4a'' = Some ''/out/a.wav''"
proof -
  have d1: "output_dir (self (new_run [''/x/a.m4a'', ''/y/a.m4a''] ''/out'' disk_with_two))
              = ''/out''"
    by (simp add: new_run_def)
  have d2: "output_dir (self
              \<lparr>self = \<lparr>input_files = [''/x/a.m4a'', ''/y/a.m4a''], output_dir = ''/out''\<rparr>,
               world = disk_with_two(''/out/a.wav'' \<mapsto> ''one''),
               emitted = [Progress 50, File_converted ''/x/a.m4a'' ''/out/a.wav'']\<rparr>)
              = ''/out''"
    by simp
  from same_base_name_same_destination[OF basename_x_y d1 d2 loop_body_x loop_body_y,
         of MainWindow_init] basename_x_y
  show ?thesis
    by (simp add: out_x)
qed

end
